theory Spec2Isabelle
  imports Complex_Main "HOL-Library.Char_ord" "HOL-Library.List_Lexorder"
begin

section \<open>Data model (dd\_llm/base.py)\<close>

text \<open>
  Python values are modelled as follows.  A \<open>str\<close> is a \<^typ>\<open>string\<close>; Python compares
  strings by code point, which on the UTF-8 bytes is the lexicographic order of
  \<^typ>\<open>char list\<close>.  A Python \<open>int\<close> is an \<^typ>\<open>int\<close>.  A Python \<open>float\<close> is
  idealised as a \<^typ>\<open>real\<close>: rounding is not modelled.  An exception is a value
  carrying \<open>type(exc).__name__\<close> and \<open>str(exc)\<close>; a function that can raise returns
  a sum whose left injection is the exception.
\<close>

datatype exn = Exn (exn_type: string) (exn_str: string)

text \<open>A chat message, the dict \<open>{"role": ..., "content": ...}\<close>.\<close>

record message =
  msg_role :: string
  msg_content :: string

text \<open>
  An entry of \<open>error_history\<close> is a \<open>dict[str, Any]\<close>.  The orchestrator writes all
  five keys; an adapter may leave keys out (the CLI adapter writes only \<open>error\<close> and
  \<open>error_type\<close>), so every key is optional.
\<close>

record error_record =
  er_provider :: "string option"
  er_attempt :: "int option"
  er_error :: "string option"
  er_error_type :: "string option"
  er_timestamp :: "real option"

text \<open>The dataclass \<open>LLMResponse\<close>, with its field defaults in \<open>LLMResponse_init\<close>.\<close>

record response =
  content :: string
  success :: bool
  provider :: string
  model :: string
  input_tokens :: int
  output_tokens :: int
  latency_ms :: real
  cost_usd :: "real option"
  attempts :: int
  total_time :: real
  error_history :: "error_record list option"

definition LLMResponse_init :: "string \<Rightarrow> bool \<Rightarrow> string \<Rightarrow> string \<Rightarrow> response" where
  "LLMResponse_init c s p m =
     \<lparr>content = c, success = s, provider = p, model = m, input_tokens = 0,
      output_tokens = 0, latency_ms = 0, cost_usd = None, attempts = 1,
      total_time = 0, error_history = None\<rparr>"

text \<open>
  Message lists are mutable Python objects that the orchestrator shares with the
  adapters, so they live in a store: an address is an index into the list of all
  list objects, and allocation appends.  A Python reference always refers to an
  existing object, so a caller's address is taken to be below the length of the store;
  the properties that read the caller's list say so.
\<close>

type_synonym addr = nat
type_synonym heap = "message list list"
type_synonym kwargs = "(string \<times> string) list"

text \<open>
  An adapter instance is its \<open>call\<close> method: it receives the message list (by
  reference), the model name and the extra keyword arguments, may read and write the
  store and its own state \<^typ>\<open>'x\<close>, and either raises or returns a response.  A
  registry entry is a class or factory: called with keyword arguments, it raises or
  returns an adapter.
\<close>

type_synonym 'x adapter =
  "addr \<Rightarrow> string \<Rightarrow> kwargs \<Rightarrow> heap \<Rightarrow> 'x \<Rightarrow> (exn + response) \<times> heap \<times> 'x"
type_synonym 'x ctor =
  "kwargs \<Rightarrow> heap \<Rightarrow> 'x \<Rightarrow> (exn + 'x adapter) \<times> heap \<times> 'x"

section \<open>The adapter registry (dd\_llm/registry.py)\<close>

text \<open>
  \<open>_ADAPTER_REGISTRY\<close> is a dict, kept here in insertion order.  Assigning to a key
  that is present replaces its value in place, assigning to a new key appends.
\<close>

type_synonym 'x registry = "(string \<times> 'x ctor) list"

fun dict_setitem :: "('k \<times> 'v) list \<Rightarrow> 'k \<Rightarrow> 'v \<Rightarrow> ('k \<times> 'v) list" where
  "dict_setitem [] k v = [(k, v)]"
| "dict_setitem ((k', v') # kvs) k v =
     (if k' = k then (k, v) # kvs else (k', v') # dict_setitem kvs k v)"

definition dict_keys :: "('k \<times> 'v) list \<Rightarrow> 'k list" where
  "dict_keys d = map fst d"

definition register_adapter :: "'x registry \<Rightarrow> string \<Rightarrow> 'x ctor \<Rightarrow> 'x registry" where
  "register_adapter reg name adapter_cls_or_factory = dict_setitem reg name adapter_cls_or_factory"

text \<open>\<open>sep.join(xs)\<close>\<close>

fun join :: "string \<Rightarrow> string list \<Rightarrow> string" where
  "join sep [] = []"
| "join sep [x] = x"
| "join sep (x # y # ys) = x @ sep @ join sep (y # ys)"

definition list_adapters :: "'x registry \<Rightarrow> string list" where
  "list_adapters reg = sort (dict_keys reg)"

definition unknown_adapter_message :: "string \<Rightarrow> string list \<Rightarrow> string" where
  "unknown_adapter_message name names =
     ''Unknown adapter '' @ [CHR 0x27] @ name @ [CHR 0x27] @ ''. Available: '' @ join '', '' names"

definition get_adapter ::
  "'x registry \<Rightarrow> string \<Rightarrow> kwargs \<Rightarrow> heap \<Rightarrow> 'x \<Rightarrow> (exn + 'x adapter) \<times> heap \<times> 'x" where
  "get_adapter reg name kw h x =
     (case map_of reg name of
        None \<Rightarrow>
          (let available = join '', '' (sort (dict_keys reg))
           in (Inl (Exn ''ValueError''
                 (''Unknown adapter '' @ [CHR 0x27] @ name @ [CHR 0x27] @ ''. Available: '' @ available)),
               h, x))
      | Some c \<Rightarrow> c kw h x)"

text \<open>The registry reached from the empty one by a sequence of registrations.\<close>

definition registered_by :: "(string \<times> 'x ctor) list \<Rightarrow> 'x registry" where
  "registered_by rs = foldl (\<lambda>reg (name, c). register_adapter reg name c) [] rs"

section \<open>The environment of a call\<close>

text \<open>
  What a call can observe and change outside the orchestrator object: the store of
  message lists and the adapters' own state (both also open to the adapters), and the
  orchestrator's view of the standard library: the values that successive reads of
  \<open>time.time()\<close> and draws of \<open>random.random()\<close> will return, and the log of the
  durations it passed to \<open>time.sleep\<close>.
\<close>

record 'x world =
  heap :: heap
  ext :: 'x
  times :: "nat \<Rightarrow> real"
  randoms :: "nat \<Rightarrow> real"
  slept :: "real list"

definition time_time :: "'x world \<Rightarrow> real \<times> 'x world" where
  "time_time w = (times w 0, w\<lparr>times := \<lambda>n. times w (Suc n)\<rparr>)"

definition random_random :: "'x world \<Rightarrow> real \<times> 'x world" where
  "random_random w = (randoms w 0, w\<lparr>randoms := \<lambda>n. randoms w (Suc n)\<rparr>)"

text \<open>\<open>random.uniform(a, b)\<close> is \<open>a + (b - a) * random()\<close>.\<close>

definition random_uniform :: "real \<Rightarrow> real \<Rightarrow> 'x world \<Rightarrow> real \<times> 'x world" where
  "random_uniform a b w = (case random_random w of (u, w') \<Rightarrow> (a + (b - a) * u, w'))"

text \<open>\<open>time.sleep\<close> raises \<open>ValueError\<close> on a negative duration.\<close>

definition time_sleep :: "real \<Rightarrow> 'x world \<Rightarrow> (exn + unit) \<times> 'x world" where
  "time_sleep secs w =
     (if secs < 0 then (Inl (Exn ''ValueError'' ''sleep length must be non-negative''), w)
      else (Inr (), w\<lparr>slept := slept w @ [secs]\<rparr>))"

definition alloc :: "message list \<Rightarrow> 'x world \<Rightarrow> addr \<times> 'x world" where
  "alloc xs w = (length (heap w), w\<lparr>heap := heap w @ [xs]\<rparr>)"

definition adapter_call ::
  "'x adapter \<Rightarrow> addr \<Rightarrow> string \<Rightarrow> kwargs \<Rightarrow> 'x world \<Rightarrow> (exn + response) \<times> 'x world" where
  "adapter_call A messages m kw w =
     (case A messages m kw (heap w) (ext w) of
        (out, h', x') \<Rightarrow> (out, w\<lparr>heap := h', ext := x'\<rparr>))"

text \<open>\<open>s or d\<close> for an optional string: \<open>None\<close> and the empty string are falsy.\<close>

fun str_or :: "string option \<Rightarrow> string \<Rightarrow> string" where
  "str_or None d = d"
| "str_or (Some s) d = (if s = [] then d else s)"

text \<open>\<open>str(n)\<close> for a natural number.\<close>

fun str_nat :: "nat \<Rightarrow> string" where
  "str_nat n =
     (if n < 10 then [''0123456789'' ! n]
      else str_nat (n div 10) @ [''0123456789'' ! (n mod 10)])"

declare str_nat.simps [simp del]

section \<open>The orchestrator (dd\_llm/provider.py)\<close>

record provider_stats_entry =
  successes :: nat
  failures :: nat
  avg_time :: real

record stats_report = provider_stats_entry +
  success_rate :: real

text \<open>
  The object \<open>self\<close>: the configuration as \<open>__init__\<close> resolved it, and the statistics
  table.  The two counters start at 0 and are only ever incremented, so they are
  natural numbers.
\<close>

record unified_llm_provider =
  primary_provider :: string
  fallback_providers :: "string list"
  max_retries :: int
  initial_wait :: real
  max_wait :: real
  provider_stats :: "string \<rightharpoonup> provider_stats_entry"

definition update_stats ::
  "unified_llm_provider \<Rightarrow> string \<Rightarrow> bool \<Rightarrow> real \<Rightarrow> unified_llm_provider" where
  "update_stats self provider_name succ elapsed =
     (let stats = (case provider_stats self provider_name of
                     None \<Rightarrow> \<lparr>successes = 0, failures = 0, avg_time = 0\<rparr>
                   | Some s \<Rightarrow> s);
          stats1 = (if succ then stats\<lparr>successes := successes stats + 1\<rparr>
                    else stats\<lparr>failures := failures stats + 1\<rparr>);
          total = successes stats1 + failures stats1;
          stats2 = stats1\<lparr>avg_time := (avg_time stats1 * real (total - 1) + elapsed) / real total\<rparr>
      in self\<lparr>provider_stats := (provider_stats self)(provider_name \<mapsto> stats2)\<rparr>)"

definition get_provider_stats :: "unified_llm_provider \<Rightarrow> (string \<rightharpoonup> stats_report)" where
  "get_provider_stats self =
     (\<lambda>name. case provider_stats self name of
        None \<Rightarrow> None
      | Some stats \<Rightarrow>
          Some \<lparr>successes = successes stats, failures = failures stats, avg_time = avg_time stats,
                success_rate = real (successes stats) / real (max (successes stats + failures stats) 1)\<rparr>)"

text \<open>The error dict the orchestrator appends, with all five keys.\<close>

definition error_dict :: "string \<Rightarrow> int \<Rightarrow> string \<Rightarrow> string \<Rightarrow> real \<Rightarrow> error_record" where
  "error_dict name attempt err etype t =
     \<lparr>er_provider = Some name, er_attempt = Some attempt, er_error = Some err,
      er_error_type = Some etype, er_timestamp = Some t\<rparr>"

text \<open>
  One line of the error summary, \<open>f"{i}. {err['error_type']}: {err['error']}"\<close>; a
  missing key raises \<open>KeyError\<close>.
\<close>

definition format_error :: "nat \<Rightarrow> error_record \<Rightarrow> exn + string" where
  "format_error i err =
     (case er_error_type err of
        None \<Rightarrow> Inl (Exn ''KeyError'' ([CHR 0x27] @ ''error_type'' @ [CHR 0x27]))
      | Some t \<Rightarrow>
          (case er_error err of
             None \<Rightarrow> Inl (Exn ''KeyError'' ([CHR 0x27] @ ''error'' @ [CHR 0x27]))
           | Some e \<Rightarrow> Inr (str_nat i @ ''. '' @ t @ '': '' @ e)))"

fun format_errors :: "nat \<Rightarrow> error_record list \<Rightarrow> exn + string list" where
  "format_errors i [] = Inr []"
| "format_errors i (err # errs) =
     (case format_error i err of
        Inl e \<Rightarrow> Inl e
      | Inr l \<Rightarrow> (case format_errors (Suc i) errs of Inl e \<Rightarrow> Inl e | Inr ls \<Rightarrow> Inr (l # ls)))"

text \<open>\<open>(local_errors + global_errors)[-3:]\<close>\<close>

definition recent_errors :: "error_record list \<Rightarrow> error_record list \<Rightarrow> error_record list" where
  "recent_errors local_errors global_errors =
     drop (length (local_errors @ global_errors) - 3) (local_errors @ global_errors)"

definition add_error_context ::
  "addr \<Rightarrow> error_record list \<Rightarrow> error_record list \<Rightarrow> 'x world \<Rightarrow> (exn + addr) \<times> 'x world" where
  "add_error_context original_messages local_errors global_errors w =
     (let recent = recent_errors local_errors global_errors
      in if recent = [] then (Inr original_messages, w)
         else (case format_errors 1 recent of
                 Inl e \<Rightarrow> (Inl e, w)
               | Inr ls \<Rightarrow>
                   (let lines = [''Previous attempts failed with the following errors:''] @ ls
                          @ [[], ''Please analyse these errors and provide a corrected response.''];
                        new = heap w ! original_messages
                          @ [\<lparr>msg_role = ''user'', msg_content = join [CHR 0x0A] lines\<rparr>]
                    in case alloc new w of (a, w') \<Rightarrow> (Inr a, w'))))"

text \<open>
  The \<open>try\<close> block up to the adapter's return: the request is built and the adapter
  called; an exception of either is the left injection.
\<close>

definition attempt_call ::
  "'x adapter \<Rightarrow> addr \<Rightarrow> string option \<Rightarrow> error_record list \<Rightarrow> error_record list \<Rightarrow> kwargs
     \<Rightarrow> nat \<Rightarrow> 'x world \<Rightarrow> (exn + response) \<times> 'x world" where
  "attempt_call A messages model_opt local_errors global_errors kw attempt w =
     (case (if attempt > 0 then add_error_context messages local_errors global_errors w
            else (Inr messages, w)) of
        (Inl e, w1) \<Rightarrow> (Inl e, w1)
      | (Inr effective_messages, w1) \<Rightarrow> adapter_call A effective_messages (str_or model_opt []) kw w1)"

text \<open>\<open>(result.error_history or [{}])[-1].get("error", "unknown")\<close>\<close>

definition adapter_failure_error :: "response \<Rightarrow> string" where
  "adapter_failure_error result =
     (case error_history result of
        None \<Rightarrow> ''unknown''
      | Some es \<Rightarrow>
          if es = [] then ''unknown''
          else (case er_error (last es) of None \<Rightarrow> ''unknown'' | Some e \<Rightarrow> e))"

text \<open>
  The end of the loop body: between attempts, sleep for the wait plus jitter and double
  the wait up to \<open>max_wait\<close>.  The result is the next wait, or the exception of
  \<open>time.sleep\<close>, which nothing catches.
\<close>

definition backoff ::
  "unified_llm_provider \<Rightarrow> nat \<Rightarrow> real \<Rightarrow> 'x world \<Rightarrow> (exn + real) \<times> 'x world" where
  "backoff self attempt wait_time w =
     (if int attempt < max_retries self - 1 then
        (case random_uniform (1 / 10) (3 / 10) w of
           (u, w1) \<Rightarrow>
             (let jitter = u * wait_time
              in case time_sleep (wait_time + jitter) w1 of
                   (Inl e, w2) \<Rightarrow> (Inl e, w2)
                 | (Inr _, w2) \<Rightarrow> (Inr (min (wait_time * 2) (max_wait self)), w2)))
      else (Inr wait_time, w))"

text \<open>A failed attempt: append the error dict, then back off.\<close>

definition on_failure ::
  "unified_llm_provider \<Rightarrow> string \<Rightarrow> nat \<Rightarrow> real \<Rightarrow> error_record list \<Rightarrow> string \<Rightarrow> string
     \<Rightarrow> 'x world \<Rightarrow> (exn + response + real \<times> error_record list) \<times> 'x world" where
  "on_failure self provider_name attempt wait_time local_errors err etype w =
     (case time_time w of
        (t, w1) \<Rightarrow>
          (let local' = local_errors @ [error_dict provider_name (int attempt + 1) err etype t]
           in case backoff self attempt wait_time w1 of
                (Inl e, w2) \<Rightarrow> (Inl e, w2)
              | (Inr wait', w2) \<Rightarrow> (Inr (Inr (wait', local')), w2)))"

text \<open>
  One iteration of the retry loop.  It raises, or returns the response (the function
  returns), or hands the next wait and the grown local error list to the next
  iteration.
\<close>

definition attempt_step ::
  "unified_llm_provider \<Rightarrow> 'x adapter \<Rightarrow> string \<Rightarrow> addr \<Rightarrow> string option \<Rightarrow> error_record list
     \<Rightarrow> kwargs \<Rightarrow> nat \<Rightarrow> real \<Rightarrow> error_record list \<Rightarrow> 'x world
     \<Rightarrow> (exn + response + real \<times> error_record list) \<times> 'x world" where
  "attempt_step self A provider_name messages model_opt global_errors kw attempt wait_time local_errors w =
     (case attempt_call A messages model_opt local_errors global_errors kw attempt w of
        (Inr result, w1) \<Rightarrow>
          if success result then
            (Inr (Inl (result\<lparr>attempts := int attempt + 1,
                               error_history := (if local_errors = [] then None else Some local_errors)\<rparr>)),
             w1)
          else on_failure self provider_name attempt wait_time local_errors
                 (adapter_failure_error result) ''AdapterFailure'' w1
      | (Inl exc, w1) \<Rightarrow>
          on_failure self provider_name attempt wait_time local_errors
            (exn_str exc) (exn_type exc) w1)"

text \<open>\<open>for attempt in range(self.max_retries)\<close>, over the attempts still to run.\<close>

fun retry_loop ::
  "unified_llm_provider \<Rightarrow> 'x adapter \<Rightarrow> string \<Rightarrow> addr \<Rightarrow> string option \<Rightarrow> error_record list
     \<Rightarrow> kwargs \<Rightarrow> nat list \<Rightarrow> real \<Rightarrow> error_record list \<Rightarrow> 'x world
     \<Rightarrow> (exn + response) \<times> 'x world" where
  "retry_loop self A provider_name messages model_opt global_errors kw [] wait_time local_errors w =
     (Inr ((LLMResponse_init [] False provider_name (str_or model_opt ''unknown''))
             \<lparr>attempts := max_retries self, total_time := 0, error_history := Some local_errors\<rparr>),
      w)"
| "retry_loop self A provider_name messages model_opt global_errors kw (attempt # rest) wait_time local_errors w =
     (case attempt_step self A provider_name messages model_opt global_errors kw attempt wait_time
             local_errors w of
        (Inl e, w1) \<Rightarrow> (Inl e, w1)
      | (Inr (Inl result), w1) \<Rightarrow> (Inr result, w1)
      | (Inr (Inr (wait', local')), w1) \<Rightarrow>
          retry_loop self A provider_name messages model_opt global_errors kw rest wait' local' w1)"

definition try_provider ::
  "unified_llm_provider \<Rightarrow> 'x registry \<Rightarrow> string \<Rightarrow> addr \<Rightarrow> string option \<Rightarrow> error_record list
     \<Rightarrow> kwargs \<Rightarrow> 'x world \<Rightarrow> (exn + response) \<times> 'x world" where
  "try_provider self reg provider_name messages model_opt global_errors kw w =
     (case get_adapter reg provider_name [] (heap w) (ext w) of
        (Inl exc, h1, x1) \<Rightarrow>
          (case time_time (w\<lparr>heap := h1, ext := x1\<rparr>) of
             (t, w2) \<Rightarrow>
               (Inr ((LLMResponse_init [] False provider_name (str_or model_opt ''unknown''))
                       \<lparr>error_history :=
                          Some [error_dict provider_name 0 (exn_str exc) (exn_type exc) t]\<rparr>),
                w2))
      | (Inr adapter, h1, x1) \<Rightarrow>
          retry_loop self adapter provider_name messages model_opt global_errors kw
            [0..<nat (max_retries self)] (initial_wait self) [] (w\<lparr>heap := h1, ext := x1\<rparr>))"

text \<open>
  The loop of \<open>call\<close> over the candidate names, with the accumulated error history and
  the orchestrator object (for its statistics) as loop state.
\<close>

fun call_loop ::
  "'x registry \<Rightarrow> addr \<Rightarrow> string option \<Rightarrow> kwargs \<Rightarrow> real \<Rightarrow> string list \<Rightarrow> error_record list
     \<Rightarrow> unified_llm_provider \<Rightarrow> 'x world \<Rightarrow> (exn + response) \<times> unified_llm_provider \<times> 'x world" where
  "call_loop reg messages model_opt kw start_time [] error_hist self w =
     (case time_time w of
        (t, w1) \<Rightarrow>
          (Inr ((LLMResponse_init [] False ''all_failed'' (str_or model_opt ''unknown''))
                  \<lparr>attempts := int (length error_hist), total_time := t - start_time,
                   error_history := Some error_hist\<rparr>),
           self, w1))"
| "call_loop reg messages model_opt kw start_time (provider_name # rest) error_hist self w =
     (if provider_name \<notin> set (list_adapters reg) then
        call_loop reg messages model_opt kw start_time rest error_hist self w
      else
        (case try_provider self reg provider_name messages model_opt error_hist kw w of
           (Inl e, w1) \<Rightarrow> (Inl e, self, w1)
         | (Inr result, w1) \<Rightarrow>
             if success result then
               (case time_time w1 of
                  (t, w2) \<Rightarrow>
                    (let total = t - start_time
                     in (Inr (result\<lparr>total_time := total\<rparr>),
                         update_stats self provider_name True total, w2)))
             else
               (let error_hist' = error_hist
                      @ (case error_history result of None \<Rightarrow> [] | Some es \<Rightarrow> es)
                in case time_time w1 of
                     (t, w2) \<Rightarrow>
                       call_loop reg messages model_opt kw start_time rest error_hist'
                         (update_stats self provider_name False (t - start_time)) w2)))"

definition providers_to_try :: "unified_llm_provider \<Rightarrow> string option \<Rightarrow> string list" where
  "providers_to_try self provider_opt =
     (let primary = str_or provider_opt (primary_provider self)
      in [primary] @ filter (\<lambda>p. p \<noteq> primary) (fallback_providers self))"

definition call ::
  "unified_llm_provider \<Rightarrow> 'x registry \<Rightarrow> string option \<Rightarrow> string option \<Rightarrow> addr option
     \<Rightarrow> string option \<Rightarrow> kwargs \<Rightarrow> 'x world
     \<Rightarrow> (exn + response) \<times> unified_llm_provider \<times> 'x world" where
  "call self reg prompt model_opt messages provider_opt kw w =
     (case (messages, prompt) of
        (None, None) \<Rightarrow>
          (Inl (Exn ''ValueError'' ''Either prompt or messages must be provided''), self, w)
      | (None, Some p) \<Rightarrow>
          (case alloc [\<lparr>msg_role = ''user'', msg_content = p\<rparr>] w of
             (m, w1) \<Rightarrow>
               (case time_time w1 of
                  (start_time, w2) \<Rightarrow>
                    call_loop reg m model_opt kw start_time (providers_to_try self provider_opt) [] self w2))
      | (Some m, _) \<Rightarrow>
          (case time_time w of
             (start_time, w2) \<Rightarrow>
               call_loop reg m model_opt kw start_time (providers_to_try self provider_opt) [] self w2))"

section \<open>Test fixtures (tests/test\_provider.py)\<close>

text \<open>
  The three adapters of the test suite.  Their state is the call counter \<open>_calls\<close> of
  the one \<open>_FailThenSucceedAdapter\<close> instance the test shares through a factory.
\<close>

definition SuccessAdapter :: "nat adapter" where
  "SuccessAdapter messages m kw h x = (Inr (LLMResponse_init ''ok'' True ''success'' ''m''), h, x)"

definition FailAdapter :: "nat adapter" where
  "FailAdapter messages m kw h x = (Inl (Exn ''RuntimeError'' ''always fails''), h, x)"

definition FailThenSucceedAdapter :: "nat adapter" where
  "FailThenSucceedAdapter messages m kw h x =
     (let calls = x + 1
      in if calls < 3 then (Inl (Exn ''RuntimeError'' (''fail #'' @ str_nat calls)), h, calls)
         else (Inr (LLMResponse_init ''recovered'' True ''flaky'' ''m''), h, calls))"

text \<open>A registry entry that returns the given adapter and touches nothing.\<close>

definition returning :: "'x adapter \<Rightarrow> 'x ctor" where
  "returning A kw h x = (Inr A, h, x)"

text \<open>
  The class \<open>_FailThenSucceedAdapter\<close> itself as a registry entry: every lookup builds a
  new instance, whose \<open>__init__\<close> sets \<open>_calls = 0\<close>.
\<close>

definition FailThenSucceedAdapter_new :: "nat ctor" where
  "FailThenSucceedAdapter_new kw h x = (Inr FailThenSucceedAdapter, h, 0)"

text \<open>
  The object \<open>__init__\<close> builds when all five arguments are given and none is falsy
  (so that no environment variable is consulted): the configuration and an empty
  statistics table.
\<close>

definition new_provider ::
  "string \<Rightarrow> string list \<Rightarrow> int \<Rightarrow> real \<Rightarrow> real \<Rightarrow> unified_llm_provider" where
  "new_provider primary fallbacks retries wait_first wait_cap =
     \<lparr>primary_provider = primary, fallback_providers = fallbacks, max_retries = retries,
      initial_wait = wait_first, max_wait = wait_cap, provider_stats = Map.empty\<rparr>"

text \<open>
  The registry of the tests, and a world to run them in: a store holding the caller's
  one-message list at address 0, a fresh flaky instance, a clock that reads 0, 1, 2, ...
  and a generator that always draws one half.
\<close>

definition test_registry :: "nat registry" where
  "test_registry =
     registered_by [(''_test_ok'', returning SuccessAdapter), (''_test_fail'', returning FailAdapter),
                    (''_test_flaky'', returning FailThenSucceedAdapter),
                    (''_test_fresh'', FailThenSucceedAdapter_new)]"

definition test_world :: "nat world" where
  "test_world =
     \<lparr>heap = [[\<lparr>msg_role = ''user'', msg_content = ''hi''\<rparr>]], ext = 0, times = (\<lambda>n. real n),
      randoms = (\<lambda>n. 1 / 2), slept = []\<rparr>"

text \<open>The entry the statistics table holds for a name, a zero entry when it has none yet.\<close>

definition stats_entry :: "unified_llm_provider \<Rightarrow> string \<Rightarrow> provider_stats_entry" where
  "stats_entry self provider_name =
     (case provider_stats self provider_name of
        None \<Rightarrow> \<lparr>successes = 0, failures = 0, avg_time = 0\<rparr>
      | Some s \<Rightarrow> s)"

section \<open>Notions used to state the properties\<close>

text \<open>An attempt fails when the adapter raises or returns a response that is not a success.\<close>

definition fails :: "exn + response \<Rightarrow> bool" where
  "fails out = (case out of Inl _ \<Rightarrow> True | Inr r \<Rightarrow> \<not> success r)"

text \<open>A backend that fails whatever it is sent, in whatever state.\<close>

definition always_fails :: "'x adapter \<Rightarrow> bool" where
  "always_fails A = (\<forall>messages m kw h x. fails (fst (A messages m kw h x)))"

text \<open>
  A backend that, from its state \<open>x\<close>, fails on its next \<open>k\<close> invocations and succeeds on
  the one after, whatever it is sent.
\<close>

fun flaky :: "nat \<Rightarrow> 'x adapter \<Rightarrow> 'x \<Rightarrow> bool" where
  "flaky 0 A x = (\<forall>messages m kw h. \<not> fails (fst (A messages m kw h x)))"
| "flaky (Suc k) A x =
     (\<forall>messages m kw h. fails (fst (A messages m kw h x))
        \<and> flaky k A (snd (snd (A messages m kw h x))))"

text \<open>Every draw of \<open>random.random()\<close> lies in \<open>[0, 1)\<close>.\<close>

definition randoms_ok :: "'x world \<Rightarrow> bool" where
  "randoms_ok w = (\<forall>n. 0 \<le> randoms w n \<and> randoms w n < 1)"

text \<open>An error dict that has the two keys the error summary reads.\<close>

definition summarisable :: "error_record \<Rightarrow> bool" where
  "summarisable err = (er_error_type err \<noteq> None \<and> er_error err \<noteq> None)"

text \<open>
  The factor by which \<open>backoff\<close> scales the wait when \<open>random.random()\<close> draws \<open>u\<close>:
  one plus \<open>random.uniform(0.1, 0.3)\<close>.
\<close>

definition jitter_factor :: "real \<Rightarrow> real" where
  "jitter_factor u = 1 + (1 / 10 + (3 / 10 - 1 / 10) * u)"

text \<open>
  A registry entry whose every instance always fails, and one whose instance, when it
  is looked up with the adapters in state \<open>x\<close>, fails \<open>k\<close> times and then succeeds.
\<close>

definition ctor_always_fails :: "'x ctor \<Rightarrow> bool" where
  "ctor_always_fails C = (\<forall>kw h x. \<exists>A h' x'. C kw h x = (Inr A, h', x') \<and> always_fails A)"

definition ctor_flaky :: "nat \<Rightarrow> 'x ctor \<Rightarrow> 'x \<Rightarrow> bool" where
  "ctor_flaky k C x = (\<forall>kw h. \<exists>A h' x'. C kw h x = (Inr A, h', x') \<and> flaky k A x')"

text \<open>
  The list object at address \<open>a\<close> exists and has the elements \<open>v\<close>; an adapter, and a
  registry entry with the adapters it builds, that leave such a list as it is.
\<close>

definition cell_is :: "addr \<Rightarrow> message list \<Rightarrow> heap \<Rightarrow> bool" where
  "cell_is a v h = (a < length h \<and> h ! a = v)"

definition adapter_preserves :: "'x adapter \<Rightarrow> addr \<Rightarrow> bool" where
  "adapter_preserves A a =
     (\<forall>v messages m kw h x. cell_is a v h \<longrightarrow> cell_is a v (fst (snd (A messages m kw h x))))"

definition ctor_preserves :: "'x ctor \<Rightarrow> addr \<Rightarrow> bool" where
  "ctor_preserves C a =
     (\<forall>v kw h x. cell_is a v h \<longrightarrow>
        cell_is a v (fst (snd (C kw h x)))
      \<and> (\<forall>A. fst (C kw h x) = Inr A \<longrightarrow> adapter_preserves A a))"

text \<open>
  What one run of the retry loop, from attempt index \<open>i\<close> with wait \<open>wait_time\<close> and local
  errors \<open>local\<close>, leaves behind when it returns \<open>r\<close>: the error dicts \<open>new\<close> it appended
  (one per failed attempt, numbered from \<open>i + 1\<close>), the response in the two ways the loop
  can return, and the sleeps it performed.
\<close>

definition retry_post ::
  "unified_llm_provider \<Rightarrow> 'x adapter \<Rightarrow> string \<Rightarrow> string option \<Rightarrow> kwargs \<Rightarrow> nat \<Rightarrow> real
     \<Rightarrow> error_record list \<Rightarrow> 'x world \<Rightarrow> response \<Rightarrow> 'x world \<Rightarrow> error_record list \<Rightarrow> bool" where
  "retry_post self A name model_opt kw i wait_time local w r w' new =
     (map er_provider new = replicate (length new) (Some name)
      \<and> map er_attempt new = map (\<lambda>j. Some (int j + 1)) [i..<i + length new]
      \<and> list_all summarisable new
      \<and> (success r \<longrightarrow>
            i + length new < nat (max_retries self)
          \<and> (\<exists>r0 messages h x.
                 fst (A messages (str_or model_opt []) kw h x) = Inr r0
               \<and> r = r0\<lparr>attempts := int (i + length new) + 1,
                        error_history := (if local @ new = [] then None else Some (local @ new))\<rparr>))
      \<and> (\<not> success r \<longrightarrow>
            i + length new = nat (max_retries self)
          \<and> r = (LLMResponse_init [] False name (str_or model_opt ''unknown''))
                  \<lparr>attempts := max_retries self, total_time := 0,
                   error_history := Some (local @ new)\<rparr>)
      \<and> slept w' = slept w
           @ map (\<lambda>k. ((\<lambda>t. min (t * 2) (max_wait self)) ^^ k) wait_time
                       * jitter_factor (randoms w k))
               [0..<(if success r then length new else nat (max_retries self) - 1 - i)]
      \<and> randoms_ok w' \<and> times w' = (\<lambda>n. times w (n + length new)))"

section \<open>Registry properties\<close>

lemma dict_setitem_keys_set: "fst ` set (dict_setitem d k v) = insert k (fst ` set d)"
  by (induction d k v rule: dict_setitem.induct) auto

lemma dict_setitem_distinct: "distinct (map fst d) \<Longrightarrow> distinct (map fst (dict_setitem d k v))"
proof (induction d k v rule: dict_setitem.induct)
  case (1 k v)
  then show ?case by simp
next
  case (2 k' v' kvs k v)
  then show ?case
    using dict_setitem_keys_set [of kvs k v] by auto
qed

lemma foldl_register_keys:
  "set (dict_keys (foldl (\<lambda>reg (name, c). register_adapter reg name c) reg0 rs))
     = set (dict_keys reg0) \<union> fst ` set rs"
proof (induction rs arbitrary: reg0)
  case Nil
  then show ?case by simp
next
  case (Cons r rs)
  obtain name c where r: "r = (name, c)" by (cases r)
  have "set (dict_keys (register_adapter reg0 name c)) = insert name (set (dict_keys reg0))"
    by (simp add: register_adapter_def dict_keys_def dict_setitem_keys_set)
  with Cons.IH [of "register_adapter reg0 name c"] r show ?case
    by auto
qed

lemma foldl_register_distinct:
  "distinct (dict_keys reg0) \<Longrightarrow>
   distinct (dict_keys (foldl (\<lambda>reg (name, c). register_adapter reg name c) reg0 rs))"
  by (induction rs arbitrary: reg0)
     (auto simp: register_adapter_def dict_keys_def dict_setitem_distinct split: prod.splits)

lemma registered_by_keys: "set (dict_keys (registered_by rs)) = fst ` set rs"
  using foldl_register_keys [of "[]" rs] by (simp add: registered_by_def dict_keys_def)

lemma registered_by_distinct: "distinct (dict_keys (registered_by rs))"
  using foldl_register_distinct [of "[]" rs] by (simp add: registered_by_def dict_keys_def)

lemma map_of_None_iff_keys: "map_of d k = None \<longleftrightarrow> k \<notin> set (dict_keys d)"
  by (simp add: dict_keys_def map_of_eq_None_iff)

lemma list_adapters_registered_by:
  "list_adapters (registered_by rs) = sorted_list_of_set (fst ` set rs)"
proof -
  have "sort (dict_keys (registered_by rs))
          = sorted_list_of_set (set (dict_keys (registered_by rs)))"
    using registered_by_distinct [of rs] by (simp add: sorted_list_of_set_sort_remdups distinct_remdups_id)
  then show ?thesis
    by (simp add: list_adapters_def registered_by_keys)
qed

text \<open>
  C9.  In every registry state reached by registrations \<open>rs\<close>: looking up a name that
  is not registered raises (a \<open>ValueError\<close>, the code's unknown-backend error) with the
  message \<open>Unknown adapter '<name>'. Available: \<close> followed by the registered names,
  comma-separated, in sorted order, and no effect on the store; and \<open>list_adapters\<close>
  returns exactly the registered names, each once, sorted.  The list depends only on the
  set of registered names: two registration sequences over the same names give the
  same list, whatever their order.
\<close>

theorem C9_registry_unknown_and_list:
  "(name \<notin> fst ` set rs \<longrightarrow>
      get_adapter (registered_by rs) name kw h x =
        (Inl (Exn ''ValueError''
           (unknown_adapter_message name (sorted_list_of_set (fst ` set rs)))), h, x))
   \<and> list_adapters (registered_by rs) = sorted_list_of_set (fst ` set rs)
   \<and> sorted (list_adapters (registered_by rs))
   \<and> distinct (list_adapters (registered_by rs))
   \<and> set (list_adapters (registered_by rs)) = fst ` set rs
   \<and> (fst ` set rs' = fst ` set rs \<longrightarrow>
        list_adapters (registered_by rs') = list_adapters (registered_by rs))"
proof -
  have l: "\<And>qs :: (string \<times> 'a ctor) list.
             list_adapters (registered_by qs) = sorted_list_of_set (fst ` set qs)"
    by (rule list_adapters_registered_by)
  have g: "name \<notin> fst ` set rs \<Longrightarrow>
      get_adapter (registered_by rs) name kw h x =
        (Inl (Exn ''ValueError''
           (unknown_adapter_message name (sorted_list_of_set (fst ` set rs)))), h, x)"
  proof -
    assume "name \<notin> fst ` set rs"
    then have "map_of (registered_by rs) name = None"
      by (simp add: map_of_None_iff_keys registered_by_keys)
    moreover have "sort (dict_keys (registered_by rs)) = sorted_list_of_set (fst ` set rs)"
      using l [of rs] by (simp add: list_adapters_def)
    ultimately show ?thesis
      by (simp add: get_adapter_def unknown_adapter_message_def)
  qed
  have o: "fst ` set rs' = fst ` set rs \<Longrightarrow>
      list_adapters (registered_by rs') = list_adapters (registered_by rs)"
    by (simp only: list_adapters_registered_by)
  show ?thesis
    using g o by (simp add: l)
qed

theorem C9_registry_unknown_and_list_witness:
  "''ollama'' \<notin> fst ` set [(''openai'', returning SuccessAdapter), (''claude_cli'', returning FailAdapter)]
   \<and> fst ` set [(''claude_cli'', returning FailAdapter), (''openai'', returning SuccessAdapter)]
       = fst ` set [(''openai'', returning SuccessAdapter), (''claude_cli'', returning FailAdapter)]
   \<and> get_adapter (registered_by [(''openai'', returning SuccessAdapter), (''claude_cli'', returning FailAdapter)])
        ''ollama'' [] [] 0
       = (Inl (Exn ''ValueError''
            (''Unknown adapter '' @ [CHR 0x27] @ ''ollama'' @ [CHR 0x27] @ ''. Available: claude_cli, openai'')),
          [], 0)
   \<and> list_adapters (registered_by [(''openai'', returning SuccessAdapter), (''claude_cli'', returning FailAdapter)])
       = [''claude_cli'', ''openai'']
   \<and> list_adapters (registered_by [(''claude_cli'', returning FailAdapter), (''openai'', returning SuccessAdapter)])
       = [''claude_cli'', ''openai'']"
proof -
  let ?rs = "[(''openai'', returning SuccessAdapter), (''claude_cli'', returning FailAdapter)]"
  let ?rs' = "[(''claude_cli'', returning FailAdapter), (''openai'', returning SuccessAdapter)]"
  have l: "list_adapters (registered_by ?rs) = [''claude_cli'', ''openai'']"
    by (simp add: list_adapters_def registered_by_def register_adapter_def dict_keys_def)
  have n: "''ollama'' \<notin> fst ` set ?rs" by simp
  have e: "fst ` set ?rs' = fst ` set ?rs" by auto
  note c = C9_registry_unknown_and_list [of "''ollama''" ?rs "[]" "[]" 0 ?rs']
  from c l have s: "sorted_list_of_set (fst ` set ?rs) = [''claude_cli'', ''openai'']"
    by (simp only:)
  from c n have g: "get_adapter (registered_by ?rs) ''ollama'' [] [] 0 =
        (Inl (Exn ''ValueError''
           (unknown_adapter_message ''ollama'' (sorted_list_of_set (fst ` set ?rs)))), [], 0)"
    by blast
  from c e have o: "list_adapters (registered_by ?rs') = list_adapters (registered_by ?rs)"
    by blast
  show ?thesis
    using n e l o g unfolding s by (simp add: unknown_adapter_message_def)
qed

section \<open>Statistics\<close>

lemma update_stats_entry:
  "provider_stats (update_stats self name succ elapsed) name =
     Some ((if succ then (stats_entry self name)\<lparr>successes := successes (stats_entry self name) + 1\<rparr>
            else (stats_entry self name)\<lparr>failures := failures (stats_entry self name) + 1\<rparr>)
           \<lparr>avg_time :=
              (avg_time (stats_entry self name)
                 * real (successes (stats_entry self name) + failures (stats_entry self name))
               + elapsed)
              / real (successes (stats_entry self name) + failures (stats_entry self name) + 1)\<rparr>)"
  by (simp add: update_stats_def stats_entry_def Let_def split: option.splits)

lemma update_stats_other:
  "other \<noteq> name \<Longrightarrow>
   provider_stats (update_stats self name succ elapsed) other = provider_stats self other"
  by (simp add: update_stats_def Let_def)

lemma update_stats_config:
  "primary_provider (update_stats self name succ elapsed) = primary_provider self"
  "fallback_providers (update_stats self name succ elapsed) = fallback_providers self"
  "max_retries (update_stats self name succ elapsed) = max_retries self"
  "initial_wait (update_stats self name succ elapsed) = initial_wait self"
  "max_wait (update_stats self name succ elapsed) = max_wait self"
  by (simp_all add: update_stats_def Let_def)

text \<open>
  The running average is the cumulative mean: after any sequence of outcomes recorded
  for a name that had no entry, the counters count the successes and the failures and
  the average is the sum of the elapsed times over their number.
\<close>

lemma update_stats_fold_invariant:
  "stats_entry self name = s \<Longrightarrow>
   avg_time s * real (successes s + failures s) = acc \<Longrightarrow>
   stats_entry (foldl (\<lambda>s (b, e). update_stats s name b e) self outcomes) name = s' \<Longrightarrow>
     successes s' = successes s + length (filter fst outcomes)
   \<and> failures s' = failures s + length (filter (\<lambda>p. \<not> fst p) outcomes)
   \<and> avg_time s' * real (successes s' + failures s') = acc + sum_list (map snd outcomes)"
proof (induction outcomes arbitrary: self s acc)
  case Nil
  then show ?case by simp
next
  case (Cons oc outcomes)
  obtain b e where oc: "oc = (b, e)" by (cases oc)
  let ?self1 = "update_stats self name b e"
  let ?s1 = "stats_entry ?self1 name"
  have s1: "?s1 = (if b then s\<lparr>successes := successes s + 1\<rparr> else s\<lparr>failures := failures s + 1\<rparr>)
             \<lparr>avg_time := (avg_time s * real (successes s + failures s) + e)
                           / real (successes s + failures s + 1)\<rparr>"
    using update_stats_entry [of self name b e] Cons.prems(1)
    by (simp add: stats_entry_def [of ?self1])
  have n1: "successes ?s1 + failures ?s1 = Suc (successes s + failures s)"
    by (simp add: s1)
  have a1: "avg_time ?s1 = (acc + e) / real (Suc (successes s + failures s))"
    using Cons.prems(2) by (simp add: s1)
  have t1: "avg_time ?s1 * real (successes ?s1 + failures ?s1) = acc + e"
    unfolding n1 a1 by (simp del: of_nat_Suc of_nat_add)
  have f: "stats_entry (foldl (\<lambda>s (b, e). update_stats s name b e) ?self1 outcomes) name = s'"
    using Cons.prems(3) oc by simp
  from Cons.IH [OF refl t1 f]
  have ih1: "successes s' = successes ?s1 + length (filter fst outcomes)"
    and ih2: "failures s' = failures ?s1 + length (filter (\<lambda>p. \<not> fst p) outcomes)"
    and ih3: "avg_time s' * real (successes s' + failures s') = acc + e + sum_list (map snd outcomes)"
    by blast+
  have c1: "successes s' = successes s + length (filter fst (oc # outcomes))"
    unfolding ih1 by (simp add: s1 oc)
  have c2: "failures s' = failures s + length (filter (\<lambda>p. \<not> fst p) (oc # outcomes))"
    unfolding ih2 by (simp add: s1 oc)
  have c3: "avg_time s' * real (successes s' + failures s') = acc + sum_list (map snd (oc # outcomes))"
    unfolding ih3 by (simp add: oc)
  show ?case
    using c1 c2 c3 by blast
qed

lemma update_stats_cumulative_mean:
  assumes "provider_stats self name = None" and "outcomes \<noteq> []"
  shows "avg_time (stats_entry (foldl (\<lambda>s (b, e). update_stats s name b e) self outcomes) name)
           = sum_list (map snd outcomes) / real (length outcomes)"
proof -
  let ?s' = "stats_entry (foldl (\<lambda>s (b, e). update_stats s name b e) self outcomes) name"
  have z: "stats_entry self name = \<lparr>successes = 0, failures = 0, avg_time = 0\<rparr>"
    using assms(1) by (simp add: stats_entry_def)
  have pre: "avg_time \<lparr>successes = 0, failures = 0, avg_time = 0\<rparr>
               * real (successes \<lparr>successes = 0, failures = 0, avg_time = 0\<rparr>
                       + failures \<lparr>successes = 0, failures = 0, avg_time = 0\<rparr>) = 0"
    by simp
  note inv = update_stats_fold_invariant [OF z pre refl, of outcomes]
  from inv have i1: "successes ?s' = length (filter fst outcomes)"
    and i2: "failures ?s' = length (filter (\<lambda>p. \<not> fst p) outcomes)"
    by simp_all
  from inv have i3: "avg_time ?s' * real (successes ?s' + failures ?s')
                       = 0 + sum_list (map snd outcomes)"
    by blast
  have "length (filter fst outcomes) + length (filter (\<lambda>p. \<not> fst p) outcomes) = length outcomes"
    using sum_length_filter_compl [of fst outcomes] by simp
  with i1 i2 have n: "successes ?s' + failures ?s' = length outcomes" by simp
  have "real (length outcomes) \<noteq> 0" using assms(2) by simp
  with i3 show ?thesis
    unfolding n by (simp add: nonzero_eq_divide_eq)
qed

text \<open>
  C8.  Recording one terminal outcome for a backend name increments exactly one of its
  two counters by one (\<open>successes\<close> on success, \<open>failures\<close> otherwise, from a zero entry
  when the name had none), sets the running average to \<open>(oldAvg * (n - 1) + elapsed) / n\<close>
  with \<open>n\<close> the new total count, and leaves every other name's entry as it was.  The
  report of \<open>get_provider_stats\<close> has an entry exactly for the names of the table, with
  the three stored values and \<open>success_rate = successes / max (successes + failures) 1\<close>;
  the rate is not a field of the stored entry but computed from the counters read, so
  after an update it is the new success count over the new total.
\<close>

theorem C8_statistics_update_and_report:
  "(let old = stats_entry self name;
        self' = update_stats self name succ elapsed;
        new = stats_entry self' name;
        n = successes new + failures new
    in provider_stats self' name = Some new
     \<and> successes new = successes old + (if succ then 1 else 0)
     \<and> failures new = failures old + (if succ then 0 else 1)
     \<and> n = successes old + failures old + 1
     \<and> avg_time new = (avg_time old * real (n - 1) + elapsed) / real n
     \<and> provider_stats self' = (provider_stats self)(name \<mapsto> new)
     \<and> get_provider_stats self' name =
         Some \<lparr>successes = successes new, failures = failures new, avg_time = avg_time new,
               success_rate = real (successes new) / real n\<rparr>)
   \<and> dom (get_provider_stats self) = dom (provider_stats self)
   \<and> get_provider_stats self other =
       map_option (\<lambda>s. \<lparr>successes = successes s, failures = failures s, avg_time = avg_time s,
                        success_rate = real (successes s) / real (max (successes s + failures s) 1)\<rparr>)
         (provider_stats self other)"
proof -
  let ?self' = "update_stats self name succ elapsed"
  have e: "provider_stats ?self' name = Some (stats_entry ?self' name)"
    using update_stats_entry [of self name succ elapsed] by (simp add: stats_entry_def [of ?self'])
  have m: "provider_stats ?self' = (provider_stats self)(name \<mapsto> stats_entry ?self' name)"
  proof
    fix k
    show "provider_stats ?self' k = ((provider_stats self)(name \<mapsto> stats_entry ?self' name)) k"
      using e update_stats_other [of k name self succ elapsed] by (cases "k = name") simp_all
  qed
  have v: "stats_entry ?self' name =
     (if succ then (stats_entry self name)\<lparr>successes := successes (stats_entry self name) + 1\<rparr>
      else (stats_entry self name)\<lparr>failures := failures (stats_entry self name) + 1\<rparr>)
     \<lparr>avg_time :=
        (avg_time (stats_entry self name)
           * real (successes (stats_entry self name) + failures (stats_entry self name))
         + elapsed)
        / real (successes (stats_entry self name) + failures (stats_entry self name) + 1)\<rparr>"
    using update_stats_entry [of self name succ elapsed] by (simp add: stats_entry_def [of ?self'])
  have g: "get_provider_stats ?self' name =
         Some \<lparr>successes = successes (stats_entry ?self' name),
               failures = failures (stats_entry ?self' name),
               avg_time = avg_time (stats_entry ?self' name),
               success_rate = real (successes (stats_entry ?self' name))
                 / real (successes (stats_entry ?self' name) + failures (stats_entry ?self' name))\<rparr>"
    using e by (simp add: get_provider_stats_def v max_def)
  have d: "dom (get_provider_stats self) = dom (provider_stats self)"
    by (auto simp: get_provider_stats_def dom_def split: option.splits)
  have r: "get_provider_stats self other =
       map_option (\<lambda>s. \<lparr>successes = successes s, failures = failures s, avg_time = avg_time s,
                        success_rate = real (successes s) / real (max (successes s + failures s) 1)\<rparr>)
         (provider_stats self other)"
    by (simp add: get_provider_stats_def split: option.splits)
  have c: "successes (stats_entry ?self' name) = successes (stats_entry self name) + (if succ then 1 else 0)"
          "failures (stats_entry ?self' name) = failures (stats_entry self name) + (if succ then 0 else 1)"
          "successes (stats_entry ?self' name) + failures (stats_entry ?self' name)
             = successes (stats_entry self name) + failures (stats_entry self name) + 1"
    by (simp_all add: v)
  have a: "avg_time (stats_entry ?self' name) =
       (avg_time (stats_entry self name)
          * real (successes (stats_entry ?self' name) + failures (stats_entry ?self' name) - 1)
        + elapsed)
       / real (successes (stats_entry ?self' name) + failures (stats_entry ?self' name))"
    unfolding c(3) by (simp add: v)
  show ?thesis
    unfolding Let_def using e m g d r c a by blast
qed

theorem C8_statistics_update_and_report_witness:
  "stats_entry (update_stats \<lparr>primary_provider = ''a'', fallback_providers = [], max_retries = 3,
        initial_wait = 1, max_wait = 30,
        provider_stats = [''a'' \<mapsto> \<lparr>successes = 2, failures = 1, avg_time = 3\<rparr>]\<rparr> ''a'' True 7) ''a''
     = \<lparr>successes = 3, failures = 1, avg_time = 4\<rparr>
   \<and> get_provider_stats (update_stats \<lparr>primary_provider = ''a'', fallback_providers = [], max_retries = 3,
        initial_wait = 1, max_wait = 30,
        provider_stats = [''a'' \<mapsto> \<lparr>successes = 2, failures = 1, avg_time = 3\<rparr>]\<rparr> ''a'' True 7) ''a''
     = Some \<lparr>successes = 3, failures = 1, avg_time = 4, success_rate = 3 / 4\<rparr>"
  using C8_statistics_update_and_report [of
      "\<lparr>primary_provider = ''a'', fallback_providers = [], max_retries = 3,
        initial_wait = 1, max_wait = 30,
        provider_stats = [''a'' \<mapsto> \<lparr>successes = 2, failures = 1, avg_time = 3\<rparr>]\<rparr>" "''a''" True 7 "''a''"]
  by (simp add: Let_def stats_entry_def update_stats_def)

section \<open>The retry loop\<close>

lemma randoms_ok_shift: "randoms_ok w \<Longrightarrow> randoms_ok (w\<lparr>randoms := \<lambda>n. randoms w (Suc n)\<rparr>)"
  by (simp add: randoms_ok_def)

lemma add_error_context_frame:
  "add_error_context m local global w = (out, w1) \<Longrightarrow>
     ext w1 = ext w \<and> times w1 = times w \<and> randoms w1 = randoms w \<and> slept w1 = slept w"
  by (auto simp: add_error_context_def alloc_def Let_def split: if_splits sum.splits)

lemma adapter_call_frame:
  "adapter_call A a m kw w = (out, w1) \<Longrightarrow>
     times w1 = times w \<and> randoms w1 = randoms w \<and> slept w1 = slept w"
  by (auto simp: adapter_call_def split: prod.splits)

lemma attempt_call_frame:
  assumes "attempt_call A m mo local global kw attempt w = (out, w1)"
  shows "times w1 = times w \<and> randoms w1 = randoms w \<and> slept w1 = slept w"
proof (cases "attempt > 0")
  case True
  obtain o1 w0 where a: "add_error_context m local global w = (o1, w0)"
    by (cases "add_error_context m local global w")
  show ?thesis
  proof (cases o1)
    case (Inl e)
    with assms True a add_error_context_frame [OF a] show ?thesis
      by (simp add: attempt_call_def)
  next
    case (Inr eff)
    with assms True a have "adapter_call A eff (str_or mo []) kw w0 = (out, w1)"
      by (simp add: attempt_call_def)
    from adapter_call_frame [OF this] add_error_context_frame [OF a] show ?thesis
      by simp
  qed
next
  case False
  with assms have "adapter_call A m (str_or mo []) kw w = (out, w1)"
    by (simp add: attempt_call_def)
  from adapter_call_frame [OF this] show ?thesis .
qed

text \<open>The sleep of one backoff: the wait scaled by one plus the jitter drawn.\<close>

lemma backoff_sleeps:
  assumes "0 \<le> wait_time" and "randoms_ok w" and "int attempt < max_retries self - 1"
  shows "backoff self attempt wait_time w =
           (Inr (min (wait_time * 2) (max_wait self)),
            w\<lparr>randoms := \<lambda>n. randoms w (Suc n),
              slept := slept w @ [wait_time * jitter_factor (randoms w 0)]\<rparr>)"
proof -
  from assms(2) have "0 \<le> randoms w 0" by (simp add: randoms_ok_def)
  then have "0 \<le> 1 / 10 + (3 / 10 - 1 / 10) * randoms w 0" by simp
  then have "0 \<le> (1 / 10 + (3 / 10 - 1 / 10) * randoms w 0) * wait_time"
    using assms(1) by (rule mult_nonneg_nonneg)
  then have "\<not> wait_time + (1 / 10 + (3 / 10 - 1 / 10) * randoms w 0) * wait_time < 0"
    using assms(1) by linarith
  then show ?thesis
    using assms(3)
    by (simp add: backoff_def random_uniform_def random_random_def time_sleep_def Let_def
        jitter_factor_def algebra_simps)
qed

lemma backoff_last:
  "\<not> int attempt < max_retries self - 1 \<Longrightarrow> backoff self attempt wait_time w = (Inr wait_time, w)"
  by (simp add: backoff_def)


lemma on_failure_sleeps:
  assumes "0 \<le> wait_time" and "randoms_ok w" and "int attempt < max_retries self - 1"
  shows "on_failure self name attempt wait_time local err etype w =
           (Inr (Inr (min (wait_time * 2) (max_wait self),
                      local @ [error_dict name (int attempt + 1) err etype (times w 0)])),
            w\<lparr>times := \<lambda>n. times w (Suc n), randoms := \<lambda>n. randoms w (Suc n),
              slept := slept w @ [wait_time * jitter_factor (randoms w 0)]\<rparr>)"
proof -
  let ?w1 = "w\<lparr>times := \<lambda>n. times w (Suc n)\<rparr>"
  have "randoms_ok ?w1" using assms(2) by (simp add: randoms_ok_def)
  from backoff_sleeps [OF assms(1) this assms(3)] show ?thesis
    by (simp add: on_failure_def time_time_def)
qed

lemma on_failure_last:
  assumes "\<not> int attempt < max_retries self - 1"
  shows "on_failure self name attempt wait_time local err etype w =
           (Inr (Inr (wait_time, local @ [error_dict name (int attempt + 1) err etype (times w 0)])),
            w\<lparr>times := \<lambda>n. times w (Suc n)\<rparr>)"
  by (simp add: on_failure_def time_time_def backoff_last [OF assms])

lemma attempt_step_success:
  assumes "attempt_call A m mo local global kw attempt w = (out, w1)" and "\<not> fails out"
  shows "\<exists>r0. out = Inr r0 \<and> success r0 \<and>
           attempt_step self A name m mo global kw attempt wait_time local w =
             (Inr (Inl (r0\<lparr>attempts := int attempt + 1,
                            error_history := (if local = [] then None else Some local)\<rparr>)), w1)"
  using assms by (cases out) (simp_all add: fails_def attempt_step_def)

lemma attempt_step_failure:
  assumes "attempt_call A m mo local global kw attempt w = (out, w1)" and "fails out"
  shows "\<exists>err etype.
           attempt_step self A name m mo global kw attempt wait_time local w =
             on_failure self name attempt wait_time local err etype w1"
  using assms by (cases out) (auto simp: fails_def attempt_step_def)


lemma attempt_call_result:
  assumes "attempt_call A m mo local global kw attempt w = (Inr r0, w1)"
  shows "\<exists>messages h x. fst (A messages (str_or mo []) kw h x) = Inr r0"
proof -
  have ad: "\<And>a w0. adapter_call A a (str_or mo []) kw w0 = (Inr r0, w1) \<Longrightarrow>
             \<exists>messages h x. fst (A messages (str_or mo []) kw h x) = Inr r0"
  proof -
    fix a and w0 :: "'a world"
    assume "adapter_call A a (str_or mo []) kw w0 = (Inr r0, w1)"
    then have "fst (A a (str_or mo []) kw (heap w0) (ext w0)) = Inr r0"
      by (auto simp: adapter_call_def split: prod.splits)
    then show "\<exists>messages h x. fst (A messages (str_or mo []) kw h x) = Inr r0" by blast
  qed
  show ?thesis
  proof (cases "attempt > 0")
    case True
    obtain o1 w0 where a: "add_error_context m local global w = (o1, w0)"
      by (cases "add_error_context m local global w")
    show ?thesis
    proof (cases o1)
      case (Inl e)
      with assms True a show ?thesis by (simp add: attempt_call_def)
    next
      case (Inr eff)
      with assms True a have "adapter_call A eff (str_or mo []) kw w0 = (Inr r0, w1)"
        by (simp add: attempt_call_def)
      then show ?thesis by (rule ad)
    qed
  next
    case False
    with assms have "adapter_call A m (str_or mo []) kw w = (Inr r0, w1)"
      by (simp add: attempt_call_def)
    then show ?thesis by (rule ad)
  qed
qed

lemma last_attempt_iff: "i < nat N \<Longrightarrow> (int i < N - 1) = (Suc i < nat N)"
  by auto

lemma retry_loop_shape:
  fixes self :: unified_llm_provider and A :: "'x adapter"
  assumes mw: "0 \<le> max_wait self"
  shows "0 \<le> wait_time \<Longrightarrow> randoms_ok w \<Longrightarrow> i \<le> nat (max_retries self) \<Longrightarrow>
         n = nat (max_retries self) - i \<Longrightarrow>
         \<exists>r w' new.
           retry_loop self A name m mo global kw [i..<nat (max_retries self)] wait_time local w
             = (Inr r, w')
         \<and> retry_post self A name mo kw i wait_time local w r w' new"
proof (induction n arbitrary: i wait_time local w)
  case 0
  then have e: "[i..<nat (max_retries self)] = []" by simp
  let ?r = "(LLMResponse_init [] False name (str_or mo ''unknown''))
              \<lparr>attempts := max_retries self, total_time := 0, error_history := Some local\<rparr>"
  have "retry_loop self A name m mo global kw [i..<nat (max_retries self)] wait_time local w
          = (Inr ?r, w)"
    unfolding e by simp
  moreover have "retry_post self A name mo kw i wait_time local w ?r w []"
    using 0 by (simp add: retry_post_def LLMResponse_init_def)
  ultimately show ?case by blast
next
  case (Suc n)
  let ?N = "nat (max_retries self)"
  let ?F = "\<lambda>t. min (t * 2) (max_wait self)"
  from Suc.prems have lt: "i < ?N" by simp
  then have u: "[i..<?N] = i # [Suc i..<?N]" by (simp add: upt_conv_Cons)
  obtain out w1 where ac: "attempt_call A m mo local global kw i w = (out, w1)"
    by (cases "attempt_call A m mo local global kw i w")
  from attempt_call_frame [OF ac]
  have fr: "times w1 = times w" "randoms w1 = randoms w" "slept w1 = slept w" by simp_all
  have ok1: "randoms_ok w1" using Suc.prems(2) fr by (simp add: randoms_ok_def)
  show ?case
  proof (cases "fails out")
    case False
    from attempt_step_success [OF ac False, of self name wait_time]
    obtain r0 where r0: "out = Inr r0" "success r0"
      and st: "attempt_step self A name m mo global kw i wait_time local w =
             (Inr (Inl (r0\<lparr>attempts := int i + 1,
                            error_history := (if local = [] then None else Some local)\<rparr>)), w1)"
      by blast
    let ?r = "r0\<lparr>attempts := int i + 1, error_history := (if local = [] then None else Some local)\<rparr>"
    have "retry_loop self A name m mo global kw [i..<?N] wait_time local w = (Inr ?r, w1)"
      unfolding u by (simp add: st)
    moreover from attempt_call_result [of A m mo local global kw i w r0 w1] ac r0
    obtain a h x where "fst (A a (str_or mo []) kw h x) = Inr r0" by blast
    then have "retry_post self A name mo kw i wait_time local w ?r w1 []"
      using r0 lt fr ok1 unfolding retry_post_def by auto
    ultimately show ?thesis by blast
  next
    case True
    from attempt_step_failure [OF ac True, of self name wait_time]
    obtain err etype where st: "attempt_step self A name m mo global kw i wait_time local w =
             on_failure self name i wait_time local err etype w1"
      by blast
    let ?rec = "error_dict name (int i + 1) err etype (times w1 0)"
    have rec: "er_provider ?rec = Some name" "er_attempt ?rec = Some (int i + 1)" "summarisable ?rec"
      by (simp_all add: error_dict_def summarisable_def)
    show ?thesis
    proof (cases "int i < max_retries self - 1")
      case True
      then have more: "Suc i < ?N" using last_attempt_iff [OF lt] by simp
      let ?w2 = "w1\<lparr>times := \<lambda>n. times w1 (Suc n), randoms := \<lambda>n. randoms w1 (Suc n),
                    slept := slept w1 @ [wait_time * jitter_factor (randoms w1 0)]\<rparr>"
      have of: "on_failure self name i wait_time local err etype w1 =
                  (Inr (Inr (?F wait_time, local @ [?rec])), ?w2)"
        by (rule on_failure_sleeps [OF Suc.prems(1) ok1 True])
      have p1: "0 \<le> ?F wait_time" using Suc.prems(1) mw by simp
      have p2: "randoms_ok ?w2" using ok1 by (simp add: randoms_ok_def)
      have p3: "Suc i \<le> ?N" using more by simp
      have p4: "n = ?N - Suc i" using Suc.prems(4) by simp
      from Suc.IH [OF p1 p2 p3 p4, of "local @ [?rec]"]
      obtain r w' new where
        rl: "retry_loop self A name m mo global kw [Suc i..<?N] (?F wait_time) (local @ [?rec]) ?w2
               = (Inr r, w')"
        and post: "retry_post self A name mo kw (Suc i) (?F wait_time) (local @ [?rec]) ?w2 r w' new"
        by blast
      have "retry_loop self A name m mo global kw [i..<?N] wait_time local w = (Inr r, w')"
        unfolding u by (simp add: st of rl)
      moreover have "retry_post self A name mo kw i wait_time local w r w' (?rec # new)"
      proof -
        let ?c' = "if success r then length new else ?N - 1 - Suc i"
        let ?c = "if success r then length (?rec # new) else ?N - 1 - i"
        have c: "?c = Suc ?c'" using more by auto
        from post have sl: "slept w' = slept ?w2
           @ map (\<lambda>k. (?F ^^ k) (?F wait_time) * jitter_factor (randoms ?w2 k))
               [0..<?c']"
          unfolding retry_post_def by blast
        have "slept w' = slept w
           @ map (\<lambda>k. (?F ^^ k) wait_time * jitter_factor (randoms w k))
               [0..<Suc ?c']"
          unfolding sl map_upt_Suc by (simp add: fr funpow_swap1 [of ?F, symmetric])
        then have s: "slept w' = slept w
           @ map (\<lambda>k. (?F ^^ k) wait_time * jitter_factor (randoms w k))
               [0..<?c]"
          unfolding c .
        from post have a: "map er_attempt new = map (\<lambda>j. Some (int j + 1)) [Suc i..<Suc i + length new]"
          unfolding retry_post_def by blast
        have a': "map er_attempt (?rec # new) = map (\<lambda>j. Some (int j + 1)) [i..<i + length (?rec # new)]"
          using a rec(2) upt_conv_Cons [of i "Suc (i + length new)"] by (simp del: upt_Suc)
        from post have t: "times w' = (\<lambda>n. times ?w2 (n + length new))"
          unfolding retry_post_def by blast
        have t': "times w' = (\<lambda>n. times w (n + length (?rec # new)))"
          unfolding t by (simp add: fr)
        from post have rest:
          "map er_provider new = replicate (length new) (Some name)"
          "list_all summarisable new"
          "success r \<longrightarrow> Suc i + length new < ?N
              \<and> (\<exists>r0 messages h x. fst (A messages (str_or mo []) kw h x) = Inr r0
                   \<and> r = r0\<lparr>attempts := int (Suc i + length new) + 1,
                            error_history := (if (local @ [?rec]) @ new = [] then None
                                              else Some ((local @ [?rec]) @ new))\<rparr>)"
          "\<not> success r \<longrightarrow> Suc i + length new = ?N
              \<and> r = (LLMResponse_init [] False name (str_or mo ''unknown''))
                  \<lparr>attempts := max_retries self, total_time := 0,
                   error_history := Some ((local @ [?rec]) @ new)\<rparr>"
          "randoms_ok w'"
          unfolding retry_post_def by blast+
        show ?thesis
          unfolding retry_post_def
          using rest rec s a' t' by (simp del: upt_Suc)
      qed
      ultimately show ?thesis by blast
    next
      case False
      then have lastone: "Suc i = ?N" using last_attempt_iff [OF lt] lt by simp
      let ?w2 = "w1\<lparr>times := \<lambda>n. times w1 (Suc n)\<rparr>"
      have of: "on_failure self name i wait_time local err etype w1 =
                  (Inr (Inr (wait_time, local @ [?rec])), ?w2)"
        by (rule on_failure_last [OF False])
      have e: "[Suc i..<?N] = []" using lastone by simp
      let ?r = "(LLMResponse_init [] False name (str_or mo ''unknown''))
              \<lparr>attempts := max_retries self, total_time := 0, error_history := Some (local @ [?rec])\<rparr>"
      have "retry_loop self A name m mo global kw [i..<?N] wait_time local w = (Inr ?r, ?w2)"
        unfolding u by (simp add: st of e)
      moreover have "retry_post self A name mo kw i wait_time local w ?r ?w2 [?rec]"
        unfolding retry_post_def
        using rec lastone [symmetric] fr ok1 by (simp add: LLMResponse_init_def randoms_ok_def)
      ultimately show ?thesis by blast
    qed
  qed
qed


lemma add_error_context_heap:
  "add_error_context m local global w = (out, w1) \<Longrightarrow> ext w1 = ext w"
  by (auto simp: add_error_context_def alloc_def Let_def split: if_splits sum.splits)

lemma attempt_call_always_fails:
  assumes "always_fails A" and "attempt_call A m mo local global kw attempt w = (out, w1)"
  shows "fails out"
proof -
  have ad: "\<And>a w0. adapter_call A a (str_or mo []) kw w0 = (out, w1) \<Longrightarrow> fails out"
  proof -
    fix a and w0 :: "'a world"
    assume "adapter_call A a (str_or mo []) kw w0 = (out, w1)"
    then have "out = fst (A a (str_or mo []) kw (heap w0) (ext w0))"
      by (auto simp: adapter_call_def split: prod.splits)
    with assms(1) show "fails out" by (simp add: always_fails_def)
  qed
  show ?thesis
  proof (cases "attempt > 0")
    case True
    obtain o1 w0 where a: "add_error_context m local global w = (o1, w0)"
      by (cases "add_error_context m local global w")
    show ?thesis
    proof (cases o1)
      case (Inl e)
      with assms(2) True a show ?thesis by (auto simp: attempt_call_def fails_def)
    next
      case (Inr eff)
      with assms(2) True a have "adapter_call A eff (str_or mo []) kw w0 = (out, w1)"
        by (simp add: attempt_call_def)
      then show ?thesis by (rule ad)
    qed
  next
    case False
    with assms(2) have "adapter_call A m (str_or mo []) kw w = (out, w1)"
      by (simp add: attempt_call_def)
    then show ?thesis by (rule ad)
  qed
qed

lemma on_failure_cases:
  assumes "on_failure self name attempt wait_time local err etype w = (res, w2)"
  shows "ext w2 = ext w \<and> heap w2 = heap w
       \<and> ((\<exists>e. res = Inl e)
          \<or> (\<exists>wait'. res = Inr (Inr (wait', local @ [error_dict name (int attempt + 1) err etype (times w 0)]))))"
  using assms
  by (auto simp: on_failure_def time_time_def backoff_def random_uniform_def random_random_def
      time_sleep_def Let_def split: if_splits)

lemma retry_loop_always_fails:
  assumes "always_fails A"
  shows "retry_loop self A name m mo global kw atts wait_time local w = (Inr r, w') \<Longrightarrow> \<not> success r"
proof (induction atts arbitrary: wait_time local w)
  case Nil
  then show ?case by (auto simp: LLMResponse_init_def)
next
  case (Cons i atts)
  obtain out w1 where ac: "attempt_call A m mo local global kw i w = (out, w1)"
    by (cases "attempt_call A m mo local global kw i w")
  from attempt_call_always_fails [OF assms ac] have f: "fails out" .
  from attempt_step_failure [OF ac f, of self name wait_time]
  obtain err etype where st: "attempt_step self A name m mo global kw i wait_time local w =
             on_failure self name i wait_time local err etype w1"
    by blast
  obtain res w2 where of: "on_failure self name i wait_time local err etype w1 = (res, w2)"
    by (cases "on_failure self name i wait_time local err etype w1")
  from on_failure_cases [OF of]
  consider e where "res = Inl e" | wait' local' where "res = Inr (Inr (wait', local'))"
    by blast
  then show ?case
  proof cases
    case 1
    with Cons.prems st of show ?thesis by simp
  next
    case 2
    with Cons.prems st of
    have "retry_loop self A name m mo global kw atts wait' local' w2 = (Inr r, w')" by simp
    then show ?thesis by (rule Cons.IH)
  qed
qed

lemma format_errors_summarisable:
  "list_all summarisable errs \<Longrightarrow> \<exists>ls. format_errors i errs = Inr ls"
proof (induction errs arbitrary: i)
  case Nil
  then show ?case by simp
next
  case (Cons e errs)
  then obtain ls where "format_errors (Suc i) errs = Inr ls" by auto
  moreover from Cons.prems obtain l where "format_error i e = Inr l"
    by (auto simp: summarisable_def format_error_def)
  ultimately show ?case by simp
qed

lemma adapter_call_fst_ext:
  "fst (adapter_call A a m kw w) = fst (A a m kw (heap w) (ext w))
   \<and> ext (snd (adapter_call A a m kw w)) = snd (snd (A a m kw (heap w) (ext w)))"
  by (simp add: adapter_call_def split: prod.splits)

lemma attempt_call_reaches_adapter:
  assumes "list_all summarisable (local @ global)"
  shows "\<exists>a h. fst (attempt_call A m mo local global kw attempt w) = fst (A a (str_or mo []) kw h (ext w))
             \<and> ext (snd (attempt_call A m mo local global kw attempt w))
                 = snd (snd (A a (str_or mo []) kw h (ext w)))"
proof (cases "attempt > 0")
  case True
  let ?recent = "recent_errors local global"
  have "list_all summarisable ?recent"
    using assms unfolding recent_errors_def list_all_iff by (meson in_set_dropD)
  from format_errors_summarisable [OF this, of 1]
  obtain ls where ls: "format_errors 1 ?recent = Inr ls" by blast
  obtain o1 w0 where a: "add_error_context m local global w = (o1, w0)"
    by (cases "add_error_context m local global w")
  from a ls obtain eff where o1: "o1 = Inr eff"
    by (auto simp: add_error_context_def alloc_def Let_def split: if_splits)
  from add_error_context_heap [OF a] have x: "ext w0 = ext w" .
  have "attempt_call A m mo local global kw attempt w = adapter_call A eff (str_or mo []) kw w0"
    using True a o1 by (simp add: attempt_call_def)
  with adapter_call_fst_ext [of A eff "str_or mo []" kw w0] x show ?thesis
    by auto
next
  case False
  then have "attempt_call A m mo local global kw attempt w = adapter_call A m (str_or mo []) kw w"
    by (simp add: attempt_call_def)
  with adapter_call_fst_ext [of A m "str_or mo []" kw w] show ?thesis
    by auto
qed

lemma retry_loop_flaky:
  "flaky k A (ext w) \<Longrightarrow> list_all summarisable (local @ global) \<Longrightarrow> i + k < nat (max_retries self) \<Longrightarrow>
   retry_loop self A name m mo global kw [i..<nat (max_retries self)] wait_time local w = (Inr r, w') \<Longrightarrow>
   success r \<and> attempts r = int (i + k) + 1"
proof (induction k arbitrary: i wait_time local w)
  case 0
  let ?N = "nat (max_retries self)"
  from 0 have u: "[i..<?N] = i # [Suc i..<?N]" by (simp add: upt_conv_Cons)
  obtain out w1 where ac: "attempt_call A m mo local global kw i w = (out, w1)"
    by (cases "attempt_call A m mo local global kw i w")
  from attempt_call_reaches_adapter [OF "0.prems"(2), of A m mo kw i w] ac
  obtain a h where "out = fst (A a (str_or mo []) kw h (ext w))"
    by auto
  with "0.prems"(1) have "\<not> fails out" by simp
  from attempt_step_success [OF ac this, of self name wait_time] "0.prems"(4)
  show ?case unfolding u by auto
next
  case (Suc k)
  let ?N = "nat (max_retries self)"
  from Suc.prems have u: "[i..<?N] = i # [Suc i..<?N]" by (simp add: upt_conv_Cons)
  obtain out w1 where ac: "attempt_call A m mo local global kw i w = (out, w1)"
    by (cases "attempt_call A m mo local global kw i w")
  from attempt_call_reaches_adapter [OF Suc.prems(2), of A m mo kw i w] ac
  obtain a h where o: "out = fst (A a (str_or mo []) kw h (ext w))"
    and x: "ext w1 = snd (snd (A a (str_or mo []) kw h (ext w)))"
    by auto
  from Suc.prems(1) o x have f: "fails out" and fl: "flaky k A (ext w1)" by simp_all
  from attempt_step_failure [OF ac f, of self name wait_time]
  obtain err etype where st: "attempt_step self A name m mo global kw i wait_time local w =
             on_failure self name i wait_time local err etype w1"
    by blast
  obtain res w2 where of: "on_failure self name i wait_time local err etype w1 = (res, w2)"
    by (cases "on_failure self name i wait_time local err etype w1")
  from on_failure_cases [OF of]
  have x2: "ext w2 = ext w1"
    and c: "(\<exists>e. res = Inl e) \<or> (\<exists>wait'. res = Inr (Inr (wait', local @ [error_dict name (int i + 1) err etype (times w1 0)])))"
    by blast+
  from c show ?case
  proof
    assume "\<exists>e. res = Inl e"
    with Suc.prems(4) st of show ?thesis unfolding u by auto
  next
    assume "\<exists>wait'. res = Inr (Inr (wait', local @ [error_dict name (int i + 1) err etype (times w1 0)]))"
    then obtain wait' where r: "res = Inr (Inr (wait', local @ [error_dict name (int i + 1) err etype (times w1 0)]))"
      by blast
    let ?local' = "local @ [error_dict name (int i + 1) err etype (times w1 0)]"
    from Suc.prems(4) st of r
    have rl: "retry_loop self A name m mo global kw [Suc i..<?N] wait' ?local' w2 = (Inr r, w')"
      unfolding u by simp
    have "summarisable (error_dict name (int i + 1) err etype (times w1 0))"
      by (simp add: summarisable_def error_dict_def)
    then have s: "list_all summarisable (?local' @ global)"
      using Suc.prems(2) by simp
    have "flaky k A (ext w2)" using fl x2 by simp
    from Suc.IH [OF this s _ rl] Suc.prems(3) show ?thesis by simp
  qed
qed

section \<open>Backoff\<close>


lemma jitter_factor_bounds:
  "0 \<le> u \<Longrightarrow> u < 1 \<Longrightarrow> 11 / 10 \<le> jitter_factor u \<and> jitter_factor u < 13 / 10"
  by (simp add: jitter_factor_def)


section \<open>Runs of the test fixtures\<close>

lemma test_world_randoms_ok: "randoms_ok test_world"
  by (simp add: randoms_ok_def test_world_def)

lemmas run_simps = new_provider_def test_world_def FailAdapter_def SuccessAdapter_def
      FailThenSucceedAdapter_def upt_rec
      attempt_step_def attempt_call_def adapter_call_def on_failure_def backoff_def
      random_uniform_def random_random_def time_sleep_def time_time_def error_dict_def
      LLMResponse_init_def add_error_context_def recent_errors_def format_error_def
      alloc_def Let_def str_nat.simps adapter_failure_error_def



lemma list_adapters_set: "set (list_adapters reg) = fst ` set reg"
  by (simp add: list_adapters_def dict_keys_def)

lemma test_registry_names:
  "list_adapters test_registry = [''_test_fail'', ''_test_flaky'', ''_test_fresh'', ''_test_ok'']"
  by (simp add: test_registry_def list_adapters_def registered_by_def register_adapter_def dict_keys_def)

lemma test_registry_lookup:
  "map_of test_registry ''_test_ok'' = Some (returning SuccessAdapter)"
  "map_of test_registry ''_test_fail'' = Some (returning FailAdapter)"
  "map_of test_registry ''_test_flaky'' = Some (returning FailThenSucceedAdapter)"
  "map_of test_registry ''_test_fresh'' = Some FailThenSucceedAdapter_new"
  by (simp_all add: test_registry_def registered_by_def register_adapter_def)

lemmas call_simps = call_def providers_to_try_def try_provider_def get_adapter_def returning_def
  FailThenSucceedAdapter_new_def
  test_registry_names test_registry_lookup update_stats_def


section \<open>Candidate order\<close>




section \<open>Runs of a call\<close>

lemma registered_iff: "p \<in> set (list_adapters reg) \<longleftrightarrow> map_of reg p \<noteq> None"
  by (simp add: list_adapters_set map_of_eq_None_iff)

lemma try_provider_always_fails:
  fixes self :: unified_llm_provider and reg :: "'x registry"
  assumes c: "map_of reg p = Some C" "ctor_always_fails C"
    and cfg: "0 \<le> initial_wait self" "0 \<le> max_wait self"
    and rnd: "randoms_ok w"
  shows "\<exists>new w'.
           try_provider self reg p m mo global kw w =
             (Inr ((LLMResponse_init [] False p (str_or mo ''unknown''))
                     \<lparr>attempts := max_retries self, total_time := 0, error_history := Some new\<rparr>), w')
         \<and> map er_provider new = replicate (nat (max_retries self)) (Some p)
         \<and> map er_attempt new = map (\<lambda>j. Some (int j + 1)) [0..<nat (max_retries self)]
         \<and> list_all summarisable new \<and> randoms_ok w'"
proof -
  from c(2) obtain A h1 x1 where C: "C [] (heap w) (ext w) = (Inr A, h1, x1)" and af: "always_fails A"
    unfolding ctor_always_fails_def by blast
  let ?w1 = "w\<lparr>heap := h1, ext := x1\<rparr>"
  have tp: "try_provider self reg p m mo global kw w =
          retry_loop self A p m mo global kw [0..<nat (max_retries self)] (initial_wait self) [] ?w1"
    using c(1) C by (simp add: try_provider_def get_adapter_def)
  have r1: "randoms_ok ?w1" using rnd by (simp add: randoms_ok_def)
  from retry_loop_shape [OF cfg(2) cfg(1) r1, of 0 "nat (max_retries self)" A p m mo global kw "[]"]
  obtain r w' new where
    rl: "retry_loop self A p m mo global kw [0..<nat (max_retries self)] (initial_wait self) [] ?w1
           = (Inr r, w')"
    and post: "retry_post self A p mo kw 0 (initial_wait self) [] ?w1 r w' new"
    by auto
  from retry_loop_always_fails [OF af rl] have ns: "\<not> success r" .
  from post ns have
    len: "length new = nat (max_retries self)"
    and r: "r = (LLMResponse_init [] False p (str_or mo ''unknown''))
                  \<lparr>attempts := max_retries self, total_time := 0, error_history := Some new\<rparr>"
    and pr: "map er_provider new = replicate (length new) (Some p)"
    and at: "map er_attempt new = map (\<lambda>j. Some (int j + 1)) [0..<0 + length new]"
    and su: "list_all summarisable new" and ok: "randoms_ok w'"
    unfolding retry_post_def by auto
  from tp rl r pr at su ok show ?thesis
    unfolding len by auto
qed

lemma try_provider_flaky:
  fixes self :: unified_llm_provider and reg :: "'x registry"
  assumes c: "map_of reg p = Some C" "ctor_flaky k C (ext w)" and k: "k < nat (max_retries self)"
    and cfg: "0 \<le> initial_wait self" "0 \<le> max_wait self"
    and rnd: "randoms_ok w" and g: "list_all summarisable global"
  shows "\<exists>r0 new w'.
           try_provider self reg p m mo global kw w =
             (Inr (r0\<lparr>attempts := int k + 1,
                       error_history := (if k = 0 then None else Some new)\<rparr>), w')
         \<and> success r0
         \<and> (\<exists>A a h x. fst (C [] (heap w) (ext w)) = Inr A \<and> fst (A a (str_or mo []) kw h x) = Inr r0)
         \<and> length new = k
         \<and> map er_provider new = replicate k (Some p)
         \<and> map er_attempt new = map (\<lambda>j. Some (int j + 1)) [0..<k]
         \<and> list_all summarisable new
         \<and> slept w' = slept w
             @ map (\<lambda>j. ((\<lambda>t. min (t * 2) (max_wait self)) ^^ j) (initial_wait self)
                         * jitter_factor (randoms w j)) [0..<k]
         \<and> randoms_ok w'"
proof -
  from c(2) obtain A h1 x1 where C: "C [] (heap w) (ext w) = (Inr A, h1, x1)" and fl: "flaky k A x1"
    unfolding ctor_flaky_def by blast
  let ?w1 = "w\<lparr>heap := h1, ext := x1\<rparr>"
  have tp: "try_provider self reg p m mo global kw w =
          retry_loop self A p m mo global kw [0..<nat (max_retries self)] (initial_wait self) [] ?w1"
    using c(1) C by (simp add: try_provider_def get_adapter_def)
  have r1: "randoms_ok ?w1" using rnd by (simp add: randoms_ok_def)
  from retry_loop_shape [OF cfg(2) cfg(1) r1, of 0 "nat (max_retries self)" A p m mo global kw "[]"]
  obtain r w' new where
    rl: "retry_loop self A p m mo global kw [0..<nat (max_retries self)] (initial_wait self) [] ?w1
           = (Inr r, w')"
    and post: "retry_post self A p mo kw 0 (initial_wait self) [] ?w1 r w' new"
    by auto
  have fl1: "flaky k A (ext ?w1)" using fl by simp
  have g1: "list_all summarisable ([] @ global)" using g by simp
  from retry_loop_flaky [OF fl1 g1 _ rl] k
  have s: "success r" and a: "attempts r = int k + 1" by simp_all
  from post s obtain r0 a0 h0 x0 where
    r0: "fst (A a0 (str_or mo []) kw h0 x0) = Inr r0"
    and r: "r = r0\<lparr>attempts := int (0 + length new) + 1,
                  error_history := (if [] @ new = [] then None else Some ([] @ new))\<rparr>"
    unfolding retry_post_def by blast
  from r a have len: "length new = k" by simp
  from r s have s0: "success r0" by simp
  from post s have
    pr: "map er_provider new = replicate (length new) (Some p)"
    and at: "map er_attempt new = map (\<lambda>j. Some (int j + 1)) [0..<0 + length new]"
    and su: "list_all summarisable new" and ok: "randoms_ok w'"
    and sl: "slept w' = slept ?w1
           @ map (\<lambda>j. ((\<lambda>t. min (t * 2) (max_wait self)) ^^ j) (initial_wait self)
                       * jitter_factor (randoms ?w1 j)) [0..<length new]"
    unfolding retry_post_def by auto
  have r': "r = r0\<lparr>attempts := int k + 1, error_history := (if k = 0 then None else Some new)\<rparr>"
    using r len by auto
  have A: "\<exists>A a h x. fst (C [] (heap w) (ext w)) = Inr A \<and> fst (A a (str_or mo []) kw h x) = Inr r0"
    using C r0 by auto
  have "try_provider self reg p m mo global kw w =
             (Inr (r0\<lparr>attempts := int k + 1,
                       error_history := (if k = 0 then None else Some new)\<rparr>), w')
         \<and> success r0
         \<and> (\<exists>A a h x. fst (C [] (heap w) (ext w)) = Inr A \<and> fst (A a (str_or mo []) kw h x) = Inr r0)
         \<and> length new = k
         \<and> map er_provider new = replicate k (Some p)
         \<and> map er_attempt new = map (\<lambda>j. Some (int j + 1)) [0..<k]
         \<and> list_all summarisable new
         \<and> slept w' = slept w
             @ map (\<lambda>j. ((\<lambda>t. min (t * 2) (max_wait self)) ^^ j) (initial_wait self)
                         * jitter_factor (randoms w j)) [0..<k]
         \<and> randoms_ok w'"
    using tp rl r' s0 A pr at su ok sl len by simp
  then show ?thesis by blast
qed


lemma call_unfold:
  assumes "prompt \<noteq> None \<or> messages \<noteq> None"
  shows "\<exists>m st w2. call self reg prompt mo messages po kw w
                      = call_loop reg m mo kw st (providers_to_try self po) [] self w2
                  \<and> randoms w2 = randoms w \<and> slept w2 = slept w \<and> ext w2 = ext w"
proof (cases messages)
  case (Some a)
  then have "call self reg prompt mo messages po kw w
       = call_loop reg a mo kw (times w 0) (providers_to_try self po) [] self
           (w\<lparr>times := \<lambda>n. times w (Suc n)\<rparr>)"
    by (cases prompt) (simp_all add: call_def time_time_def)
  then show ?thesis by force
next
  case None
  with assms obtain p where "prompt = Some p" by auto
  with None have "call self reg prompt mo messages po kw w
       = call_loop reg (length (heap w)) mo kw (times w 0) (providers_to_try self po) [] self
           (w\<lparr>heap := heap w @ [[\<lparr>msg_role = ''user'', msg_content = p\<rparr>]],
              times := \<lambda>n. times w (Suc n)\<rparr>)"
    by (simp add: call_def time_time_def alloc_def)
  then show ?thesis by force
qed

lemma call_loop_fail_step:
  fixes self :: unified_llm_provider and reg :: "'x registry"
  assumes c: "map_of reg p = Some C" "ctor_always_fails C"
    and cfg: "0 \<le> initial_wait self" "0 \<le> max_wait self"
    and rnd: "randoms_ok w"
  shows "\<exists>new t w'.
           call_loop reg m mo kw st (p # rest) errs self w
             = call_loop reg m mo kw st rest (errs @ new) (update_stats self p False (t - st)) w'
         \<and> map er_provider new = replicate (nat (max_retries self)) (Some p)
         \<and> map er_attempt new = map (\<lambda>j. Some (int j + 1)) [0..<nat (max_retries self)]
         \<and> list_all summarisable new \<and> randoms_ok w'"
proof -
  from try_provider_always_fails [OF c cfg rnd, of m mo errs kw]
  obtain new w1 where
    tp: "try_provider self reg p m mo errs kw w =
             (Inr ((LLMResponse_init [] False p (str_or mo ''unknown''))
                     \<lparr>attempts := max_retries self, total_time := 0, error_history := Some new\<rparr>), w1)"
    and new: "map er_provider new = replicate (nat (max_retries self)) (Some p)"
      "map er_attempt new = map (\<lambda>j. Some (int j + 1)) [0..<nat (max_retries self)]"
      "list_all summarisable new"
    and ok: "randoms_ok w1"
    by blast
  have reg: "p \<in> set (list_adapters reg)" using c(1) by (simp add: registered_iff)
  have "call_loop reg m mo kw st (p # rest) errs self w
          = call_loop reg m mo kw st rest (errs @ new) (update_stats self p False (times w1 0 - st))
              (w1\<lparr>times := \<lambda>n. times w1 (Suc n)\<rparr>)"
    using reg tp by (simp add: LLMResponse_init_def time_time_def)
  moreover have "randoms_ok (w1\<lparr>times := \<lambda>n. times w1 (Suc n)\<rparr>)"
    using ok by (simp add: randoms_ok_def)
  ultimately show ?thesis using new by blast
qed

lemma call_loop_success_step:
  fixes self :: unified_llm_provider and reg :: "'x registry"
  assumes c: "map_of reg p = Some C" "ctor_flaky k C (ext w)" and k: "k < nat (max_retries self)"
    and cfg: "0 \<le> initial_wait self" "0 \<le> max_wait self"
    and rnd: "randoms_ok w" and g: "list_all summarisable errs"
  shows "\<exists>r0 new t w'.
           call_loop reg m mo kw st (p # rest) errs self w
             = (Inr (r0\<lparr>attempts := int k + 1,
                         error_history := (if k = 0 then None else Some new),
                         total_time := t - st\<rparr>),
                update_stats self p True (t - st), w')
         \<and> success r0
         \<and> (\<exists>A a h x. fst (C [] (heap w) (ext w)) = Inr A \<and> fst (A a (str_or mo []) kw h x) = Inr r0)
         \<and> length new = k
         \<and> map er_provider new = replicate k (Some p)
         \<and> map er_attempt new = map (\<lambda>j. Some (int j + 1)) [0..<k]
         \<and> slept w' = slept w
             @ map (\<lambda>j. ((\<lambda>t. min (t * 2) (max_wait self)) ^^ j) (initial_wait self)
                         * jitter_factor (randoms w j)) [0..<k]"
proof -
  from try_provider_flaky [OF c k cfg rnd g, of m mo kw]
  obtain r0 new w1 where
    tp: "try_provider self reg p m mo errs kw w =
             (Inr (r0\<lparr>attempts := int k + 1,
                       error_history := (if k = 0 then None else Some new)\<rparr>), w1)"
    and rest: "success r0"
      "\<exists>A a h x. fst (C [] (heap w) (ext w)) = Inr A \<and> fst (A a (str_or mo []) kw h x) = Inr r0"
      "length new = k"
      "map er_provider new = replicate k (Some p)"
      "map er_attempt new = map (\<lambda>j. Some (int j + 1)) [0..<k]"
      "slept w1 = slept w
             @ map (\<lambda>j. ((\<lambda>t. min (t * 2) (max_wait self)) ^^ j) (initial_wait self)
                         * jitter_factor (randoms w j)) [0..<k]"
    by blast
  have reg: "p \<in> set (list_adapters reg)" using c(1) by (simp add: registered_iff)
  let ?w' = "w1\<lparr>times := \<lambda>n. times w1 (Suc n)\<rparr>"
  have "call_loop reg m mo kw st (p # rest) errs self w
             = (Inr (r0\<lparr>attempts := int k + 1,
                         error_history := (if k = 0 then None else Some new),
                         total_time := times w1 0 - st\<rparr>),
                update_stats self p True (times w1 0 - st), ?w')"
    using reg tp rest(1) by (simp add: time_time_def Let_def)
  moreover have "slept ?w' = slept w
             @ map (\<lambda>j. ((\<lambda>t. min (t * 2) (max_wait self)) ^^ j) (initial_wait self)
                         * jitter_factor (randoms w j)) [0..<k]"
    using rest(6) by simp
  ultimately show ?thesis using rest(1-5) by blast
qed


lemma call_loop_all_fail:
  fixes reg :: "'x registry"
  shows "\<forall>p\<in>set ps. \<forall>C. map_of reg p = Some C \<longrightarrow> ctor_always_fails C \<Longrightarrow>
         0 \<le> initial_wait self \<Longrightarrow> 0 \<le> max_wait self \<Longrightarrow> randoms_ok w \<Longrightarrow>
         \<exists>new t self' w'.
           call_loop reg m mo kw st ps errs self w
             = (Inr ((LLMResponse_init [] False ''all_failed'' (str_or mo ''unknown''))
                      \<lparr>attempts := int (length (errs @ new)), total_time := t - st,
                       error_history := Some (errs @ new)\<rparr>), self', w')
         \<and> map er_provider new
             = concat (map (\<lambda>p. replicate (nat (max_retries self)) (Some p))
                         (filter (\<lambda>p. p \<in> fst ` set reg) ps))
         \<and> map er_attempt new
             = concat (map (\<lambda>p. map (\<lambda>j. Some (int j + 1)) [0..<nat (max_retries self)])
                         (filter (\<lambda>p. p \<in> fst ` set reg) ps))"
proof (induction ps arbitrary: errs self w)
  case Nil
  have "call_loop reg m mo kw st [] errs self w
          = (Inr ((LLMResponse_init [] False ''all_failed'' (str_or mo ''unknown''))
                      \<lparr>attempts := int (length (errs @ [])), total_time := times w 0 - st,
                       error_history := Some (errs @ [])\<rparr>), self, w\<lparr>times := \<lambda>n. times w (Suc n)\<rparr>)"
    by (simp add: time_time_def)
  then show ?case by fastforce
next
  case (Cons p ps)
  show ?case
  proof (cases "p \<in> fst ` set reg")
    case False
    then have sk: "call_loop reg m mo kw st (p # ps) errs self w = call_loop reg m mo kw st ps errs self w"
      by (simp add: list_adapters_set)
    from Cons.IH [of self w errs] Cons.prems False sk show ?thesis by simp
  next
    case True
    then obtain C where C: "map_of reg p = Some C"
      using registered_iff [of p reg] by (auto simp: list_adapters_set)
    with Cons.prems(1) have af: "ctor_always_fails C" by simp
    from call_loop_fail_step [OF C af Cons.prems(2) Cons.prems(3) Cons.prems(4), of m mo kw st ps errs]
    obtain new1 t1 w1 where
      st1: "call_loop reg m mo kw st (p # ps) errs self w
             = call_loop reg m mo kw st ps (errs @ new1) (update_stats self p False (t1 - st)) w1"
      and n1: "map er_provider new1 = replicate (nat (max_retries self)) (Some p)"
        "map er_attempt new1 = map (\<lambda>j. Some (int j + 1)) [0..<nat (max_retries self)]"
      and ok1: "randoms_ok w1"
      by blast
    let ?self1 = "update_stats self p False (t1 - st)"
    have p1: "\<forall>p\<in>set ps. \<forall>C. map_of reg p = Some C \<longrightarrow> ctor_always_fails C"
      using Cons.prems(1) by simp
    have p2: "0 \<le> initial_wait ?self1" "0 \<le> max_wait ?self1"
      using Cons.prems(2,3) by (simp_all add: update_stats_config)
    from Cons.IH [OF p1 p2 ok1, of "errs @ new1"]
    obtain new2 t self' w' where
      st2: "call_loop reg m mo kw st ps (errs @ new1) ?self1 w1
             = (Inr ((LLMResponse_init [] False ''all_failed'' (str_or mo ''unknown''))
                      \<lparr>attempts := int (length ((errs @ new1) @ new2)), total_time := t - st,
                       error_history := Some ((errs @ new1) @ new2)\<rparr>), self', w')"
      and n2: "map er_provider new2
             = concat (map (\<lambda>p. replicate (nat (max_retries ?self1)) (Some p))
                         (filter (\<lambda>p. p \<in> fst ` set reg) ps))"
        "map er_attempt new2
             = concat (map (\<lambda>p. map (\<lambda>j. Some (int j + 1)) [0..<nat (max_retries ?self1)])
                         (filter (\<lambda>p. p \<in> fst ` set reg) ps))"
      by blast
    have "call_loop reg m mo kw st (p # ps) errs self w
             = (Inr ((LLMResponse_init [] False ''all_failed'' (str_or mo ''unknown''))
                      \<lparr>attempts := int (length (errs @ (new1 @ new2))), total_time := t - st,
                       error_history := Some (errs @ (new1 @ new2))\<rparr>), self', w')"
      using st1 st2 by simp
    moreover have "map er_provider (new1 @ new2)
             = concat (map (\<lambda>p. replicate (nat (max_retries self)) (Some p))
                         (filter (\<lambda>p. p \<in> fst ` set reg) (p # ps)))"
      using True n1(1) n2(1) by (simp add: update_stats_config)
    moreover have "map er_attempt (new1 @ new2)
             = concat (map (\<lambda>p. map (\<lambda>j. Some (int j + 1)) [0..<nat (max_retries self)])
                         (filter (\<lambda>p. p \<in> fst ` set reg) (p # ps)))"
      using True n1(2) n2(2) by (simp add: update_stats_config)
    ultimately show ?thesis by blast
  qed
qed


text \<open>
  C4.  Take a call with a prompt or a message list, a configuration whose two waits are
  not negative, and a generator drawing from \<open>[0, 1)\<close>.  If every registered candidate
  always fails, the call returns a response with \<open>success = False\<close>, backend name
  \<open>all_failed\<close>, the accumulated error history and \<open>attempts\<close> equal to its length.  The
  history holds, for each registered candidate in candidate order, that backend's
  \<open>max_retries\<close> error dicts with attempt numbers \<open>1 .. max_retries\<close>, so its length is
  \<open>max_retries\<close> times the number of registered candidates; for one registered backend
  alone (no fallbacks) it has exactly \<open>max_retries\<close> records.
\<close>

theorem C4_all_failed:
  fixes reg :: "'x registry"
  assumes "prompt \<noteq> None \<or> messages \<noteq> None"
    and "\<forall>p\<in>set (providers_to_try self po). \<forall>C. map_of reg p = Some C \<longrightarrow> ctor_always_fails C"
    and "0 \<le> initial_wait self" and "0 \<le> max_wait self" and "randoms_ok w"
  shows "\<exists>r self' w' errs.
           call self reg prompt mo messages po kw w = (Inr r, self', w')
         \<and> success r = False \<and> provider r = ''all_failed''
         \<and> error_history r = Some errs \<and> attempts r = int (length errs)
         \<and> map er_provider errs
             = concat (map (\<lambda>p. replicate (nat (max_retries self)) (Some p))
                         (filter (\<lambda>p. p \<in> fst ` set reg) (providers_to_try self po)))
         \<and> map er_attempt errs
             = concat (map (\<lambda>p. map (\<lambda>j. Some (int j + 1)) [0..<nat (max_retries self)])
                         (filter (\<lambda>p. p \<in> fst ` set reg) (providers_to_try self po)))
         \<and> length errs
             = nat (max_retries self)
               * length (filter (\<lambda>p. p \<in> fst ` set reg) (providers_to_try self po))
         \<and> (fallback_providers self = [] \<longrightarrow> str_or po (primary_provider self) \<in> fst ` set reg \<longrightarrow>
              length errs = nat (max_retries self))"
proof -
  from call_unfold [OF assms(1), of self reg mo po kw w]
  obtain m st w2 where
    cu: "call self reg prompt mo messages po kw w
           = call_loop reg m mo kw st (providers_to_try self po) [] self w2"
    and r2: "randoms w2 = randoms w"
    by blast
  have ok2: "randoms_ok w2" using assms(5) r2 by (simp add: randoms_ok_def)
  from call_loop_all_fail [OF assms(2) assms(3) assms(4) ok2, of m mo kw st "[]"]
  obtain new t self' w' where
    cl: "call_loop reg m mo kw st (providers_to_try self po) [] self w2
             = (Inr ((LLMResponse_init [] False ''all_failed'' (str_or mo ''unknown''))
                      \<lparr>attempts := int (length ([] @ new)), total_time := t - st,
                       error_history := Some ([] @ new)\<rparr>), self', w')"
    and n: "map er_provider new
             = concat (map (\<lambda>p. replicate (nat (max_retries self)) (Some p))
                         (filter (\<lambda>p. p \<in> fst ` set reg) (providers_to_try self po)))"
      "map er_attempt new
             = concat (map (\<lambda>p. map (\<lambda>j. Some (int j + 1)) [0..<nat (max_retries self)])
                         (filter (\<lambda>p. p \<in> fst ` set reg) (providers_to_try self po)))"
    by blast
  let ?r = "(LLMResponse_init [] False ''all_failed'' (str_or mo ''unknown''))
                      \<lparr>attempts := int (length new), total_time := t - st,
                       error_history := Some new\<rparr>"
  have c: "call self reg prompt mo messages po kw w = (Inr ?r, self', w')"
    using cu cl by simp
  have f: "success ?r = False" "provider ?r = ''all_failed''" "error_history ?r = Some new"
    "attempts ?r = int (length new)"
    by (simp_all add: LLMResponse_init_def)
  have "length (map er_provider new)
          = length (concat (map (\<lambda>p. replicate (nat (max_retries self)) (Some p))
                         (filter (\<lambda>p. p \<in> fst ` set reg) (providers_to_try self po))))"
    using n(1) by simp
  then have l: "length new
             = nat (max_retries self)
               * length (filter (\<lambda>p. p \<in> fst ` set reg) (providers_to_try self po))"
    by (simp add: length_concat comp_def sum_list_triv)
  have one: "fallback_providers self = [] \<longrightarrow> str_or po (primary_provider self) \<in> fst ` set reg \<longrightarrow>
              length new = nat (max_retries self)"
    using l by (simp add: providers_to_try_def Let_def)
  from c f n l one show ?thesis by blast
qed

lemma FailAdapter_always_fails: "ctor_always_fails (returning FailAdapter)"
  by (simp add: ctor_always_fails_def returning_def always_fails_def FailAdapter_def fails_def)

theorem C4_all_failed_witness:
  "0 \<le> initial_wait (new_provider ''_test_fail'' [] 2 (1 / 100) 30)
   \<and> 0 \<le> max_wait (new_provider ''_test_fail'' [] 2 (1 / 100) 30)
   \<and> randoms_ok test_world
   \<and> fst (call (new_provider ''_test_fail'' [] 2 (1 / 100) 30) test_registry (Some ''hello'') None None
             None [] test_world)
       = Inr ((LLMResponse_init [] False ''all_failed'' ''unknown'')
               \<lparr>attempts := 2, total_time := 4,
                error_history := Some
                  [error_dict ''_test_fail'' 1 ''always fails'' ''RuntimeError'' 1,
                   error_dict ''_test_fail'' 2 ''always fails'' ''RuntimeError'' 2]\<rparr>)"
proof -
  let ?p = "new_provider ''_test_fail'' [] 2 (1 / 100) 30"
  have h1: "Some ''hello'' \<noteq> None \<or> (None :: addr option) \<noteq> None" by simp
  have h2: "\<forall>p\<in>set (providers_to_try ?p None).
         \<forall>C. map_of test_registry p = Some C \<longrightarrow> ctor_always_fails C"
    using FailAdapter_always_fails
    by (simp add: providers_to_try_def new_provider_def test_registry_lookup)
  have h3: "0 \<le> initial_wait ?p" and h4: "0 \<le> max_wait ?p" by (simp_all add: new_provider_def)
  have h5: "randoms_ok test_world" by (rule test_world_randoms_ok)
  from C4_all_failed [OF h1 h2 h3 h4 h5, of None "[]"]
  obtain r self' w' errs where
    c: "call ?p test_registry (Some ''hello'') None None None [] test_world = (Inr r, self', w')"
    and "attempts r = int (length errs)" "error_history r = Some errs"
    by blast
  have "fst (call ?p test_registry (Some ''hello'') None None None [] test_world)
       = Inr ((LLMResponse_init [] False ''all_failed'' ''unknown'')
               \<lparr>attempts := 2, total_time := 4,
                error_history := Some
                  [error_dict ''_test_fail'' 1 ''always fails'' ''RuntimeError'' 1,
                   error_dict ''_test_fail'' 2 ''always fails'' ''RuntimeError'' 2]\<rparr>)"
    by (simp add: call_simps run_simps)
  with h3 h4 h5 show ?thesis by blast
qed


text \<open>
  C5.  Take a call with a prompt or a message list whose effective primary is
  registered and whose instance fails on attempts \<open>1 .. k\<close> and succeeds on attempt
  \<open>k + 1\<close>, with \<open>k < max_retries\<close> (waits not negative, draws in \<open>[0, 1)\<close>).  The call
  returns a response with \<open>success = True\<close> and \<open>attempts = k + 1\<close>, whose error list has
  the \<open>k\<close> dicts of the failed attempts, numbered \<open>1 .. k\<close> and naming this backend; as
  the code stores \<open>local_errors or None\<close>, the list of no entries is \<open>None\<close>.  Exactly
  \<open>k\<close> sleeps were performed, so none when the first try succeeds.
\<close>

theorem C5_retry_then_success:
  fixes reg :: "'x registry"
  assumes "prompt \<noteq> None \<or> messages \<noteq> None"
    and "map_of reg (str_or po (primary_provider self)) = Some C"
    and "ctor_flaky k C (ext w)" and "k < nat (max_retries self)"
    and "0 \<le> initial_wait self" and "0 \<le> max_wait self" and "randoms_ok w"
  shows "\<exists>r self' w' new.
           call self reg prompt mo messages po kw w = (Inr r, self', w')
         \<and> success r \<and> attempts r = int k + 1
         \<and> error_history r = (if k = 0 then None else Some new)
         \<and> length new = k
         \<and> map er_provider new = replicate k (Some (str_or po (primary_provider self)))
         \<and> map er_attempt new = map (\<lambda>j. Some (int j + 1)) [0..<k]
         \<and> slept w' = slept w
             @ map (\<lambda>j. ((\<lambda>t. min (t * 2) (max_wait self)) ^^ j) (initial_wait self)
                         * jitter_factor (randoms w j)) [0..<k]
         \<and> (k = 0 \<longrightarrow> slept w' = slept w)"
proof -
  let ?p = "str_or po (primary_provider self)"
  from call_unfold [OF assms(1), of self reg mo po kw w]
  obtain m st w2 where
    cu: "call self reg prompt mo messages po kw w
           = call_loop reg m mo kw st (providers_to_try self po) [] self w2"
    and f2: "randoms w2 = randoms w" "slept w2 = slept w" "ext w2 = ext w"
    by blast
  have ok2: "randoms_ok w2" using assms(7) f2 by (simp add: randoms_ok_def)
  have fl2: "ctor_flaky k C (ext w2)" using assms(3) f2 by simp
  have ps: "providers_to_try self po = ?p # filter (\<lambda>q. q \<noteq> ?p) (fallback_providers self)"
    by (simp add: providers_to_try_def Let_def)
  from call_loop_success_step [OF assms(2) fl2 assms(4) assms(5) assms(6) ok2, of "[]" m mo kw st
      "filter (\<lambda>q. q \<noteq> ?p) (fallback_providers self)"]
  obtain r0 new t w' where
    cl: "call_loop reg m mo kw st (?p # filter (\<lambda>q. q \<noteq> ?p) (fallback_providers self)) [] self w2
             = (Inr (r0\<lparr>attempts := int k + 1,
                         error_history := (if k = 0 then None else Some new),
                         total_time := t - st\<rparr>),
                update_stats self ?p True (t - st), w')"
    and rest: "success r0" "length new = k"
      "map er_provider new = replicate k (Some ?p)"
      "map er_attempt new = map (\<lambda>j. Some (int j + 1)) [0..<k]"
    and sl: "slept w' = slept w2
             @ map (\<lambda>j. ((\<lambda>t. min (t * 2) (max_wait self)) ^^ j) (initial_wait self)
                         * jitter_factor (randoms w2 j)) [0..<k]"
    by auto
  let ?r = "r0\<lparr>attempts := int k + 1, error_history := (if k = 0 then None else Some new),
                total_time := t - st\<rparr>"
  have c: "call self reg prompt mo messages po kw w = (Inr ?r, update_stats self ?p True (t - st), w')"
    using cu cl ps by simp
  have r: "success ?r" "attempts ?r = int k + 1" "error_history ?r = (if k = 0 then None else Some new)"
    using rest(1) by simp_all
  have s: "slept w' = slept w
             @ map (\<lambda>j. ((\<lambda>t. min (t * 2) (max_wait self)) ^^ j) (initial_wait self)
                         * jitter_factor (randoms w j)) [0..<k]"
    using sl f2 by simp
  then have z: "k = 0 \<longrightarrow> slept w' = slept w" by simp
  from c r rest(2-4) s z show ?thesis by blast
qed

lemma FailThenSucceedAdapter_flaky: "flaky 2 FailThenSucceedAdapter 0"
  by (simp add: numeral_2_eq_2 FailThenSucceedAdapter_def fails_def Let_def LLMResponse_init_def)

theorem C5_retry_then_success_witness:
  "map_of test_registry (str_or None (primary_provider (new_provider ''_test_flaky'' [] 3 (1 / 100) 30)))
       = Some (returning FailThenSucceedAdapter)
   \<and> ctor_flaky 2 (returning FailThenSucceedAdapter) (ext test_world)
   \<and> 2 < nat (max_retries (new_provider ''_test_flaky'' [] 3 (1 / 100) 30))
   \<and> 0 \<le> initial_wait (new_provider ''_test_flaky'' [] 3 (1 / 100) 30)
   \<and> 0 \<le> max_wait (new_provider ''_test_flaky'' [] 3 (1 / 100) 30)
   \<and> randoms_ok test_world
   \<and> fst (call (new_provider ''_test_flaky'' [] 3 (1 / 100) 30) test_registry (Some ''hello'') None None
             None [] test_world)
       = Inr ((LLMResponse_init ''recovered'' True ''flaky'' ''m'')
               \<lparr>attempts := 3, total_time := 3,
                error_history := Some
                  [error_dict ''_test_flaky'' 1 ''fail #1'' ''RuntimeError'' 1,
                   error_dict ''_test_flaky'' 2 ''fail #2'' ''RuntimeError'' 2]\<rparr>)
   \<and> slept (snd (snd (call (new_provider ''_test_flaky'' [] 3 (1 / 100) 30) test_registry
             (Some ''hello'') None None None [] test_world)))
       = [1 / 100 * (12 / 10), 2 / 100 * (12 / 10)]"
proof -
  let ?p = "new_provider ''_test_flaky'' [] 3 (1 / 100) 30"
  have h1: "Some ''hello'' \<noteq> None \<or> (None :: addr option) \<noteq> None" by simp
  have h2: "map_of test_registry (str_or None (primary_provider ?p)) = Some (returning FailThenSucceedAdapter)"
    by (simp add: new_provider_def test_registry_lookup)
  have h3: "ctor_flaky 2 (returning FailThenSucceedAdapter) (ext test_world)"
    using FailThenSucceedAdapter_flaky by (simp add: ctor_flaky_def returning_def test_world_def)
  have h4: "2 < nat (max_retries ?p)" by (simp add: new_provider_def)
  have h5: "0 \<le> initial_wait ?p" and h6: "0 \<le> max_wait ?p" by (simp_all add: new_provider_def)
  have h7: "randoms_ok test_world" by (rule test_world_randoms_ok)
  note th = C5_retry_then_success [OF h1 h2 h3 h4 h5 h6 h7, of None "[]"]
  have e: "fst (call ?p test_registry (Some ''hello'') None None None [] test_world)
       = Inr ((LLMResponse_init ''recovered'' True ''flaky'' ''m'')
               \<lparr>attempts := 3, total_time := 3,
                error_history := Some
                  [error_dict ''_test_flaky'' 1 ''fail #1'' ''RuntimeError'' 1,
                   error_dict ''_test_flaky'' 2 ''fail #2'' ''RuntimeError'' 2]\<rparr>)"
    by (simp add: call_simps run_simps)
  have s: "slept (snd (snd (call ?p test_registry (Some ''hello'') None None None [] test_world)))
       = [1 / 100 * (12 / 10), 2 / 100 * (12 / 10)]"
    by (simp add: call_simps run_simps)
  show ?thesis
    using th by (intro conjI h2 h3 h4 h5 h6 h7 e s)
qed


section \<open>Failover\<close>

lemma call_loop_failover:
  fixes reg :: "'x registry"
  assumes f: "map_of reg f = Some Cf" "\<forall>x. ctor_flaky k Cf x"
  shows "\<forall>p\<in>set fs. \<forall>C. map_of reg p = Some C \<longrightarrow> ctor_always_fails C \<Longrightarrow>
         k < nat (max_retries self) \<Longrightarrow>
         0 \<le> initial_wait self \<Longrightarrow> 0 \<le> max_wait self \<Longrightarrow> randoms_ok w \<Longrightarrow>
         list_all summarisable errs \<Longrightarrow>
         \<exists>r0 new t self' w'.
           call_loop reg m mo kw st (fs @ f # rest) errs self w
             = (Inr (r0\<lparr>attempts := int k + 1,
                         error_history := (if k = 0 then None else Some new),
                         total_time := t - st\<rparr>), self', w')
         \<and> success r0
         \<and> (\<exists>A a h x h0 x0. fst (Cf [] h0 x0) = Inr A \<and> fst (A a (str_or mo []) kw h x) = Inr r0)
         \<and> length new = k
         \<and> map er_provider new = replicate k (Some f)
         \<and> map er_attempt new = map (\<lambda>j. Some (int j + 1)) [0..<k]"
proof (induction fs arbitrary: errs self w)
  case Nil
  from f(2) have fl: "ctor_flaky k Cf (ext w)" by simp
  from call_loop_success_step [OF f(1) fl Nil.prems(2) Nil.prems(3) Nil.prems(4) Nil.prems(5)
      Nil.prems(6), of m mo kw st rest]
  obtain r0 new t w' where
    "call_loop reg m mo kw st (f # rest) errs self w
             = (Inr (r0\<lparr>attempts := int k + 1,
                         error_history := (if k = 0 then None else Some new),
                         total_time := t - st\<rparr>),
                update_stats self f True (t - st), w')"
    "success r0"
    "\<exists>A a h x. fst (Cf [] (heap w) (ext w)) = Inr A \<and> fst (A a (str_or mo []) kw h x) = Inr r0"
    "length new = k"
    "map er_provider new = replicate k (Some f)"
    "map er_attempt new = map (\<lambda>j. Some (int j + 1)) [0..<k]"
    by blast
  then show ?case by (simp del: ex_simps) blast
next
  case (Cons p fs)
  have p1: "\<forall>p\<in>set fs. \<forall>C. map_of reg p = Some C \<longrightarrow> ctor_always_fails C"
    using Cons.prems(1) by simp
  show ?case
  proof (cases "p \<in> fst ` set reg")
    case False
    then have sk: "call_loop reg m mo kw st ((p # fs) @ f # rest) errs self w
                    = call_loop reg m mo kw st (fs @ f # rest) errs self w"
      by (simp add: list_adapters_set)
    from Cons.IH [OF p1 Cons.prems(2-6)] show ?thesis unfolding sk .
  next
    case True
    then obtain C where C: "map_of reg p = Some C"
      using registered_iff [of p reg] by (auto simp: list_adapters_set)
    with Cons.prems(1) have af: "ctor_always_fails C" by simp
    from call_loop_fail_step [OF C af Cons.prems(3) Cons.prems(4) Cons.prems(5),
        of m mo kw st "fs @ f # rest" errs]
    obtain new1 t1 w1 where
      st1: "call_loop reg m mo kw st (p # fs @ f # rest) errs self w
             = call_loop reg m mo kw st (fs @ f # rest) (errs @ new1)
                 (update_stats self p False (t1 - st)) w1"
      and s1: "list_all summarisable new1"
      and ok1: "randoms_ok w1"
      by blast
    let ?self1 = "update_stats self p False (t1 - st)"
    have q: "k < nat (max_retries ?self1)" "0 \<le> initial_wait ?self1" "0 \<le> max_wait ?self1"
      using Cons.prems(2,3,4) by (simp_all add: update_stats_config)
    have e1: "list_all summarisable (errs @ new1)" using Cons.prems(6) s1 by simp
    from Cons.IH [OF p1 q ok1 e1] show ?thesis
      using st1 by simp
  qed
qed


text \<open>
  C1, as the code has it.  Take a call whose effective primary is registered and always fails,
  whose further candidates before \<open>f\<close> always fail where registered, and whose
  fallback \<open>f\<close> is registered and fails \<open>k < max_retries\<close> times before it succeeds.
  The call returns the response \<open>r0\<close> that the adapter of \<open>f\<close> returned, with only
  \<open>attempts\<close>, \<open>error_history\<close> and \<open>total_time\<close> overwritten: \<open>success\<close> is true,
  \<open>attempts = k + 1\<close>, and the backend name is the one that adapter put in its response
  (the orchestrator does not set it).  The error history is \<open>None\<close> when \<open>k = 0\<close> and else
  the \<open>k\<close> dicts of the failed attempts of \<open>f\<close> itself: no record of the primary is in
  it.
\<close>

theorem C1_failover_response:
  fixes reg :: "'x registry"
  assumes "prompt \<noteq> None \<or> messages \<noteq> None"
    and "providers_to_try self po = primary # fs @ f # rest"
    and "map_of reg primary = Some Cp"
    and "\<forall>p\<in>set (primary # fs). \<forall>C. map_of reg p = Some C \<longrightarrow> ctor_always_fails C"
    and "map_of reg f = Some Cf" and "\<forall>x. ctor_flaky k Cf x" and "k < nat (max_retries self)"
    and "0 \<le> initial_wait self" and "0 \<le> max_wait self" and "randoms_ok w"
  shows "\<exists>r r0 self' w' new.
           call self reg prompt mo messages po kw w = (Inr r, self', w')
         \<and> success r \<and> attempts r = int k + 1
         \<and> r = r0\<lparr>attempts := int k + 1,
                  error_history := (if k = 0 then None else Some new),
                  total_time := total_time r\<rparr>
         \<and> (\<exists>A a h x h0 x0. fst (Cf [] h0 x0) = Inr A \<and> fst (A a (str_or mo []) kw h x) = Inr r0)
         \<and> provider r = provider r0
         \<and> error_history r = (if k = 0 then None else Some new)
         \<and> length new = k
         \<and> map er_provider new = replicate k (Some f)
         \<and> f \<noteq> primary
         \<and> filter (\<lambda>e. er_provider e = Some primary) new = []"
proof -
  from call_unfold [OF assms(1), of self reg mo po kw w]
  obtain m st w2 where
    cu: "call self reg prompt mo messages po kw w
           = call_loop reg m mo kw st (providers_to_try self po) [] self w2"
    and f2: "randoms w2 = randoms w"
    by blast
  have ok2: "randoms_ok w2" using assms(10) f2 by (simp add: randoms_ok_def)
  have e0: "list_all summarisable []" by simp
  from call_loop_failover [OF assms(5) assms(6) assms(4) assms(7) assms(8) assms(9) ok2 e0,
      of m mo kw st rest]
  obtain r0 new t self' w' where
    cl: "call_loop reg m mo kw st ((primary # fs) @ f # rest) [] self w2
             = (Inr (r0\<lparr>attempts := int k + 1,
                         error_history := (if k = 0 then None else Some new),
                         total_time := t - st\<rparr>), self', w')"
    and s0: "success r0"
    and a0: "\<exists>A a h x h0 x0. fst (Cf [] h0 x0) = Inr A \<and> fst (A a (str_or mo []) kw h x) = Inr r0"
    and n: "length new = k" "map er_provider new = replicate k (Some f)"
    by blast
  let ?r = "r0\<lparr>attempts := int k + 1, error_history := (if k = 0 then None else Some new),
                total_time := t - st\<rparr>"
  have c: "call self reg prompt mo messages po kw w = (Inr ?r, self', w')"
    using cu cl assms(2) by simp
  have r: "success ?r" "attempts ?r = int k + 1" "provider ?r = provider r0"
    "error_history ?r = (if k = 0 then None else Some new)"
    "?r = r0\<lparr>attempts := int k + 1, error_history := (if k = 0 then None else Some new),
               total_time := total_time ?r\<rparr>"
    using s0 by simp_all
  have eq: "filter (\<lambda>p. p \<noteq> primary) (fallback_providers self) = fs @ f # rest"
    using assms(2) by (auto simp: providers_to_try_def Let_def)
  have "f \<in> set (fs @ f # rest)" by simp
  then have "f \<in> set (filter (\<lambda>p. p \<noteq> primary) (fallback_providers self))"
    by (simp only: eq)
  then have ne: "f \<noteq> primary" by simp
  have "\<forall>e\<in>set new. er_provider e = Some f"
  proof
    fix e assume "e \<in> set new"
    then have "er_provider e \<in> set (map er_provider new)" by simp
    then show "er_provider e = Some f" unfolding n(2) by simp
  qed
  with ne have fi: "filter (\<lambda>e. er_provider e = Some primary) new = []"
    by (auto simp: filter_empty_conv)
  from c r a0 n ne fi show ?thesis by blast
qed

text \<open>
  The fallback test: the primary \<open>_test_fail\<close> exhausts its two retries (its failure is
  in the statistics), the fallback registered as \<open>_test_ok\<close> succeeds.  The response
  names the backend \<open>success\<close>, as the adapter wrote it, not \<open>_test_ok\<close>, and its error
  history is \<open>None\<close>: the primary's two error dicts are not in it.
\<close>

theorem C1_failover_response_counterexample:
  "fst (call (new_provider ''_test_fail'' [''_test_ok''] 2 (1 / 100) 30) test_registry
          (Some ''hello'') None None None [] test_world)
     = Inr ((LLMResponse_init ''ok'' True ''success'' ''m'')\<lparr>total_time := 4\<rparr>)
   \<and> provider ((LLMResponse_init ''ok'' True ''success'' ''m'')\<lparr>total_time := 4\<rparr>) \<noteq> ''_test_ok''
   \<and> error_history ((LLMResponse_init ''ok'' True ''success'' ''m'')\<lparr>total_time := 4\<rparr>) = None
   \<and> provider_stats (fst (snd (call (new_provider ''_test_fail'' [''_test_ok''] 2 (1 / 100) 30)
          test_registry (Some ''hello'') None None None [] test_world))) ''_test_fail''
     = Some \<lparr>successes = 0, failures = 1, avg_time = 3\<rparr>"
  by (simp add: call_simps run_simps)

lemma FailThenSucceedAdapter_new_flaky: "ctor_flaky 2 FailThenSucceedAdapter_new x"
  using FailThenSucceedAdapter_flaky by (simp add: ctor_flaky_def FailThenSucceedAdapter_new_def)

theorem C1_failover_response_witness:
  "providers_to_try (new_provider ''_test_fail'' [''_test_fresh''] 3 (1 / 100) 30) None
       = ''_test_fail'' # [] @ ''_test_fresh'' # []
   \<and> map_of test_registry ''_test_fail'' = Some (returning FailAdapter)
   \<and> ctor_always_fails (returning FailAdapter)
   \<and> map_of test_registry ''_test_fresh'' = Some FailThenSucceedAdapter_new
   \<and> (\<forall>x. ctor_flaky 2 FailThenSucceedAdapter_new x)
   \<and> 2 < nat (max_retries (new_provider ''_test_fail'' [''_test_fresh''] 3 (1 / 100) 30))
   \<and> 0 \<le> initial_wait (new_provider ''_test_fail'' [''_test_fresh''] 3 (1 / 100) 30)
   \<and> 0 \<le> max_wait (new_provider ''_test_fail'' [''_test_fresh''] 3 (1 / 100) 30)
   \<and> randoms_ok test_world
   \<and> fst (call (new_provider ''_test_fail'' [''_test_fresh''] 3 (1 / 100) 30) test_registry
             (Some ''hello'') None None None [] test_world)
       = Inr ((LLMResponse_init ''recovered'' True ''flaky'' ''m'')
               \<lparr>attempts := 3, total_time := 7,
                error_history := Some
                  [error_dict ''_test_fresh'' 1 ''fail #1'' ''RuntimeError'' 5,
                   error_dict ''_test_fresh'' 2 ''fail #2'' ''RuntimeError'' 6]\<rparr>)"
proof -
  let ?p = "new_provider ''_test_fail'' [''_test_fresh''] 3 (1 / 100) 30"
  have h1: "Some ''hello'' \<noteq> None \<or> (None :: addr option) \<noteq> None" by simp
  have h2: "providers_to_try ?p None = ''_test_fail'' # [] @ ''_test_fresh'' # []"
    by (simp add: providers_to_try_def new_provider_def)
  have h3: "map_of test_registry ''_test_fail'' = Some (returning FailAdapter)"
    by (simp add: test_registry_lookup)
  have h4: "\<forall>p\<in>set [''_test_fail'']. \<forall>C. map_of test_registry p = Some C \<longrightarrow> ctor_always_fails C"
    using FailAdapter_always_fails by (simp add: test_registry_lookup)
  have h5: "map_of test_registry ''_test_fresh'' = Some FailThenSucceedAdapter_new"
    by (simp add: test_registry_lookup)
  have h6: "\<forall>x. ctor_flaky 2 FailThenSucceedAdapter_new x"
    by (simp add: FailThenSucceedAdapter_new_flaky)
  have h7: "2 < nat (max_retries ?p)" by (simp add: new_provider_def)
  have h8: "0 \<le> initial_wait ?p" and h9: "0 \<le> max_wait ?p" by (simp_all add: new_provider_def)
  have h10: "randoms_ok test_world" by (rule test_world_randoms_ok)
  note th = C1_failover_response [OF h1 h2 h3 h4 h5 h6 h7 h8 h9 h10, of None "[]"]
  have e: "fst (call ?p test_registry (Some ''hello'') None None None [] test_world)
       = Inr ((LLMResponse_init ''recovered'' True ''flaky'' ''m'')
               \<lparr>attempts := 3, total_time := 7,
                error_history := Some
                  [error_dict ''_test_fresh'' 1 ''fail #1'' ''RuntimeError'' 5,
                   error_dict ''_test_fresh'' 2 ''fail #2'' ''RuntimeError'' 6]\<rparr>)"
    by (simp add: call_simps run_simps)
  show ?thesis
    using th by (intro conjI h2 h3 FailAdapter_always_fails h5 h6 h7 h8 h9 h10 e)
qed

section \<open>The caller's message list\<close>

lemma add_error_context_cell:
  assumes "cell_is a v (heap w)"
  shows "cell_is a v (heap (snd (add_error_context m local global w)))"
  using assms
  by (auto simp: add_error_context_def alloc_def Let_def cell_is_def nth_append split: sum.splits)

lemma adapter_call_cell:
  assumes "adapter_preserves A a" and "cell_is a v (heap w)"
  shows "cell_is a v (heap (snd (adapter_call A m mn kw w)))"
proof -
  from assms have "cell_is a v (fst (snd (A m mn kw (heap w) (ext w))))"
    unfolding adapter_preserves_def by blast
  then show ?thesis by (auto simp: adapter_call_def split: prod.splits)
qed

lemma attempt_call_cell:
  assumes "adapter_preserves A a" and "cell_is a v (heap w)"
  shows "cell_is a v (heap (snd (attempt_call A m mo local global kw attempt w)))"
proof (cases "attempt > 0")
  case True
  obtain o1 w0 where e: "add_error_context m local global w = (o1, w0)"
    by (cases "add_error_context m local global w")
  from add_error_context_cell [OF assms(2), of m local global] e
  have c0: "cell_is a v (heap w0)" by simp
  show ?thesis
  proof (cases o1)
    case (Inl x)
    with True e c0 show ?thesis by (simp add: attempt_call_def)
  next
    case (Inr eff)
    with True e adapter_call_cell [OF assms(1) c0, of eff "str_or mo []" kw]
    show ?thesis by (simp add: attempt_call_def)
  qed
next
  case False
  with adapter_call_cell [OF assms, of m "str_or mo []" kw]
  show ?thesis by (simp add: attempt_call_def)
qed

lemma on_failure_heap:
  "heap (snd (on_failure self name attempt wait_time local err etype w)) = heap w"
  by (simp add: on_failure_def time_time_def backoff_def random_uniform_def random_random_def
      time_sleep_def Let_def split: prod.splits sum.splits)

lemma attempt_step_cell:
  assumes "adapter_preserves A a" and "cell_is a v (heap w)"
  shows "cell_is a v (heap (snd (attempt_step self A name m mo global kw attempt wait_time local w)))"
proof -
  obtain out w1 where ac: "attempt_call A m mo local global kw attempt w = (out, w1)"
    by (cases "attempt_call A m mo local global kw attempt w")
  from attempt_call_cell [OF assms, of m mo local global kw attempt] ac
  have c1: "cell_is a v (heap w1)" by simp
  show ?thesis
    using ac c1 by (cases out) (simp_all add: attempt_step_def on_failure_heap)
qed

lemma retry_loop_cell:
  assumes "adapter_preserves A a"
  shows "cell_is a v (heap w) \<Longrightarrow>
         cell_is a v (heap (snd (retry_loop self A name m mo global kw atts wait_time local w)))"
proof (induction atts arbitrary: wait_time local w)
  case Nil
  then show ?case by simp
next
  case (Cons i atts)
  obtain res w1 where st: "attempt_step self A name m mo global kw i wait_time local w = (res, w1)"
    by (cases "attempt_step self A name m mo global kw i wait_time local w")
  from attempt_step_cell [OF assms Cons.prems, of self name m mo global kw i wait_time local] st
  have c1: "cell_is a v (heap w1)" by simp
  show ?case
  proof (cases res)
    case (Inl e)
    with st c1 show ?thesis by simp
  next
    case (Inr y)
    show ?thesis
    proof (cases y)
      case (Inl r)
      with Inr st c1 show ?thesis by simp
    next
      case (Inr nx)
      obtain wait' local' where nx: "nx = (wait', local')" by (cases nx)
      from Cons.IH [OF c1, of wait' local'] st Inr \<open>res = Inr y\<close> nx show ?thesis by simp
    qed
  qed
qed

lemma try_provider_cell:
  assumes "\<forall>C\<in>snd ` set reg. ctor_preserves C a" and "cell_is a v (heap w)"
  shows "cell_is a v (heap (snd (try_provider self reg name m mo global kw w)))"
proof (cases "map_of reg name")
  case None
  with assms(2) show ?thesis
    by (simp add: try_provider_def get_adapter_def time_time_def)
next
  case (Some C)
  then have "C \<in> snd ` set reg" by (force dest: map_of_SomeD)
  with assms(1) have cp: "ctor_preserves C a" by blast
  obtain out h1 x1 where c: "C [] (heap w) (ext w) = (out, h1, x1)"
    by (cases "C [] (heap w) (ext w)")
  from cp assms(2) have both: "cell_is a v (fst (snd (C [] (heap w) (ext w))))
      \<and> (\<forall>A. fst (C [] (heap w) (ext w)) = Inr A \<longrightarrow> adapter_preserves A a)"
    unfolding ctor_preserves_def by blast
  from both c have c1: "cell_is a v h1" by simp
  from both c have ad: "\<And>A. out = Inr A \<Longrightarrow> adapter_preserves A a" by simp
  show ?thesis
  proof (cases out)
    case (Inl e)
    with Some c c1 show ?thesis
      by (simp add: try_provider_def get_adapter_def time_time_def)
  next
    case (Inr A)
    have "cell_is a v (heap (w\<lparr>heap := h1, ext := x1\<rparr>))" using c1 by simp
    from retry_loop_cell [OF ad [OF Inr] this] Some c Inr show ?thesis
      by (simp add: try_provider_def get_adapter_def)
  qed
qed

lemma call_loop_cell:
  assumes "\<forall>C\<in>snd ` set reg. ctor_preserves C a"
  shows "cell_is a v (heap w) \<Longrightarrow>
         cell_is a v (heap (snd (snd (call_loop reg m mo kw st ps errs self w))))"
proof (induction ps arbitrary: errs self w)
  case Nil
  then show ?case by (simp add: time_time_def)
next
  case (Cons p ps)
  show ?case
  proof (cases "p \<in> set (list_adapters reg)")
    case False
    with Cons.IH [OF Cons.prems] show ?thesis by simp
  next
    case True
    obtain res w1 where tp: "try_provider self reg p m mo errs kw w = (res, w1)"
      by (cases "try_provider self reg p m mo errs kw w")
    from try_provider_cell [OF assms Cons.prems, of self p m mo errs kw] tp
    have c1: "cell_is a v (heap w1)" by simp
    show ?thesis
    proof (cases res)
      case (Inl e)
      with True tp c1 show ?thesis by simp
    next
      case (Inr r)
      show ?thesis
      proof (cases "success r")
        case True
        with \<open>p \<in> set (list_adapters reg)\<close> tp Inr c1 show ?thesis
          by (simp add: time_time_def Let_def)
      next
        case False
        have c2: "cell_is a v (heap (w1\<lparr>times := \<lambda>n. times w1 (Suc n)\<rparr>))" using c1 by simp
        from Cons.IH [OF c2] False \<open>p \<in> set (list_adapters reg)\<close> tp Inr show ?thesis
          by (simp add: time_time_def Let_def)
      qed
    qed
  qed
qed


lemma add_error_context_new_list:
  "heap (snd (add_error_context a local global w)) = heap w
   \<or> (\<exists>msg. heap (snd (add_error_context a local global w)) = heap w @ [heap w ! a @ [msg]]
            \<and> fst (add_error_context a local global w) = Inr (length (heap w)))"
  by (auto simp: add_error_context_def alloc_def Let_def split: sum.splits)

text \<open>
  C10.  The orchestrator never writes to the caller's message list.  Attempt index 0
  hands the adapter the caller's list itself, in the world as it is; error-context
  injection either returns the list it was given and leaves the store as it is, or
  allocates one new list, the elements of the original followed by one message, at a
  new address, every existing list being untouched.  So when the backends do not write
  to the list either (every registry entry, and every adapter it builds, leaves the
  list at the caller's address as it is, as all adapters of the repository do), then
  after \<open>call\<close>, whether it returned or raised, the caller's list still exists and
  has exactly its original elements in order.
\<close>

theorem C10_messages_not_mutated:
  assumes "a < length (heap w)" and "\<forall>C\<in>snd ` set reg. ctor_preserves C a"
  shows "a < length (heap (snd (snd (call self reg prompt mo (Some a) po kw w))))
       \<and> heap (snd (snd (call self reg prompt mo (Some a) po kw w))) ! a = heap w ! a
       \<and> attempt_call A a mo local global kw 0 w = adapter_call A a (str_or mo []) kw w
       \<and> (heap (snd (add_error_context a local global w)) = heap w
          \<or> (\<exists>msg. heap (snd (add_error_context a local global w)) = heap w @ [heap w ! a @ [msg]]
                   \<and> fst (add_error_context a local global w) = Inr (length (heap w))))"
proof -
  have c0: "cell_is a (heap w ! a) (heap (w\<lparr>times := \<lambda>n. times w (Suc n)\<rparr>))"
    using assms(1) by (simp add: cell_is_def)
  have "call self reg prompt mo (Some a) po kw w
       = call_loop reg a mo kw (times w 0) (providers_to_try self po) [] self
           (w\<lparr>times := \<lambda>n. times w (Suc n)\<rparr>)"
    by (cases prompt) (simp_all add: call_def time_time_def)
  with call_loop_cell [OF assms(2) c0, of a mo kw "times w 0" "providers_to_try self po" "[]" self]
  have "cell_is a (heap w ! a) (heap (snd (snd (call self reg prompt mo (Some a) po kw w))))"
    by simp
  then have f: "a < length (heap (snd (snd (call self reg prompt mo (Some a) po kw w))))"
    "heap (snd (snd (call self reg prompt mo (Some a) po kw w))) ! a = heap w ! a"
    by (simp_all add: cell_is_def)
  have z: "attempt_call A a mo local global kw 0 w = adapter_call A a (str_or mo []) kw w"
    by (simp add: attempt_call_def)
  from f z add_error_context_new_list [of a local global w] show ?thesis by blast
qed

lemma fixtures_preserve:
  "adapter_preserves SuccessAdapter a" "adapter_preserves FailAdapter a"
  "adapter_preserves FailThenSucceedAdapter a"
  by (simp_all add: adapter_preserves_def SuccessAdapter_def FailAdapter_def
      FailThenSucceedAdapter_def Let_def)

lemma test_registry_preserves: "\<forall>C\<in>snd ` set test_registry. ctor_preserves C a"
  using fixtures_preserve [of a]
  by (simp add: test_registry_def registered_by_def register_adapter_def ctor_preserves_def
      returning_def FailThenSucceedAdapter_new_def)

theorem C10_messages_not_mutated_witness:
  "0 < length (heap test_world)
   \<and> heap (snd (snd (call (new_provider ''_test_fail'' [''_test_ok''] 2 (1 / 100) 30) test_registry
                      None None (Some 0) None [] test_world))) ! 0
       = [\<lparr>msg_role = ''user'', msg_content = ''hi''\<rparr>]
   \<and> length (heap (snd (snd (call (new_provider ''_test_fail'' [''_test_ok''] 2 (1 / 100) 30)
                      test_registry None None (Some 0) None [] test_world)))) = 2"
proof -
  let ?p = "new_provider ''_test_fail'' [''_test_ok''] 2 (1 / 100) 30"
  have h1: "0 < length (heap test_world)" by (simp add: test_world_def)
  from C10_messages_not_mutated [OF h1 test_registry_preserves, of ?p None None None "[]"]
  have "heap (snd (snd (call ?p test_registry None None (Some 0) None [] test_world))) ! 0
          = heap test_world ! 0"
    by blast
  then have a: "heap (snd (snd (call ?p test_registry None None (Some 0) None [] test_world))) ! 0
       = [\<lparr>msg_role = ''user'', msg_content = ''hi''\<rparr>]"
    by (simp add: test_world_def)
  have b: "length (heap (snd (snd (call ?p test_registry None None (Some 0) None [] test_world)))) = 2"
    by (simp add: call_simps run_simps)
  from h1 a b show ?thesis by blast
qed

section \<open>Error-context injection\<close>

text \<open>
  The summary lists at most three errors.  For the first backend tried they are its
  own last three.  Once three errors have been carried over from abandoned backends,
  they are the last three carried over, whatever the current backend's own errors.
\<close>

lemma recent_errors_at_most_three: "length (recent_errors local global) \<le> 3"
  by (simp add: recent_errors_def)

lemma recent_errors_first_backend:
  "recent_errors local [] = drop (length local - 3) local"
  by (simp add: recent_errors_def)

lemma recent_errors_carried_over_only:
  "3 \<le> length global \<Longrightarrow> recent_errors local global = drop (length global - 3) global"
  by (simp add: recent_errors_def)

text \<open>
  C2, at a failing input.  The primary \<open>_test_fail\<close> fails three times (at times 1, 2,
  3), then the fallback \<open>_test_fresh\<close> fails twice (\<open>fail #1\<close> at time 5, \<open>fail #2\<close> at
  time 6) and succeeds.  The requests of the fallback's attempt indices 1 and 2 are the
  lists at addresses 3 and 4.  Each is the original list plus one message, but the
  message summarises the primary's three errors and neither \<open>fail #1\<close> nor \<open>fail #2\<close>,
  the most recent errors at that point: \<open>(local_errors + global_errors)[-3:]\<close> keeps
  the end of the carried-over list.
\<close>

theorem C2_error_context_omits_own_errors:
  "fst (call (new_provider ''_test_fail'' [''_test_fresh''] 3 (1 / 100) 30) test_registry
          None None (Some 0) None [] test_world)
     = Inr ((LLMResponse_init ''recovered'' True ''flaky'' ''m'')
             \<lparr>attempts := 3, total_time := 7,
              error_history := Some
                [error_dict ''_test_fresh'' 1 ''fail #1'' ''RuntimeError'' 5,
                 error_dict ''_test_fresh'' 2 ''fail #2'' ''RuntimeError'' 6]\<rparr>)
   \<and> heap (snd (snd (call (new_provider ''_test_fail'' [''_test_fresh''] 3 (1 / 100) 30)
          test_registry None None (Some 0) None [] test_world))) ! 3
     = [\<lparr>msg_role = ''user'', msg_content = ''hi''\<rparr>,
        \<lparr>msg_role = ''user'',
         msg_content = join [CHR 0x0A]
           [''Previous attempts failed with the following errors:'',
            ''1. RuntimeError: always fails'',
            ''2. RuntimeError: always fails'',
            ''3. RuntimeError: always fails'',
            [],
            ''Please analyse these errors and provide a corrected response.'']\<rparr>]
   \<and> heap (snd (snd (call (new_provider ''_test_fail'' [''_test_fresh''] 3 (1 / 100) 30)
          test_registry None None (Some 0) None [] test_world))) ! 4
     = [\<lparr>msg_role = ''user'', msg_content = ''hi''\<rparr>,
        \<lparr>msg_role = ''user'',
         msg_content = join [CHR 0x0A]
           [''Previous attempts failed with the following errors:'',
            ''1. RuntimeError: always fails'',
            ''2. RuntimeError: always fails'',
            ''3. RuntimeError: always fails'',
            [],
            ''Please analyse these errors and provide a corrected response.'']\<rparr>]
   \<and> recent_errors
         [error_dict ''_test_fresh'' 1 ''fail #1'' ''RuntimeError'' 5]
         [error_dict ''_test_fail'' 1 ''always fails'' ''RuntimeError'' 1,
          error_dict ''_test_fail'' 2 ''always fails'' ''RuntimeError'' 2,
          error_dict ''_test_fail'' 3 ''always fails'' ''RuntimeError'' 3]
     = [error_dict ''_test_fail'' 1 ''always fails'' ''RuntimeError'' 1,
        error_dict ''_test_fail'' 2 ''always fails'' ''RuntimeError'' 2,
        error_dict ''_test_fail'' 3 ''always fails'' ''RuntimeError'' 3]"
  by (simp add: call_simps run_simps)

section \<open>Statistics of a call\<close>

text \<open>
  Each backend tried has exactly one outcome recorded: a success, after which the call
  returns, or a failure, after which the loop goes on to the next candidate.
\<close>

lemma call_loop_records_outcome:
  assumes "p \<in> set (list_adapters reg)"
    and "try_provider self reg p m mo errs kw w = (Inr r, w1)"
  shows "call_loop reg m mo kw st (p # rest) errs self w =
           (if success r then
              (Inr (r\<lparr>total_time := times w1 0 - st\<rparr>),
               update_stats self p True (times w1 0 - st),
               w1\<lparr>times := \<lambda>n. times w1 (Suc n)\<rparr>)
            else
              call_loop reg m mo kw st rest
                (errs @ (case error_history r of None \<Rightarrow> [] | Some es \<Rightarrow> es))
                (update_stats self p False (times w1 0 - st))
                (w1\<lparr>times := \<lambda>n. times w1 (Suc n)\<rparr>))"
  using assms by (simp add: time_time_def Let_def)

section \<open>Validation\<close>

lemma on_failure_raises:
  "on_failure self name attempt wait_time local err etype w = (Inl e, w') \<Longrightarrow>
   e = Exn ''ValueError'' ''sleep length must be non-negative''"
  by (auto simp: on_failure_def time_time_def backoff_def random_uniform_def random_random_def
      time_sleep_def Let_def split: if_splits)

lemma attempt_step_raises:
  assumes "attempt_step self A name m mo global kw attempt wait_time local w = (Inl e, w')"
  shows "e = Exn ''ValueError'' ''sleep length must be non-negative''"
proof -
  obtain out w1 where ac: "attempt_call A m mo local global kw attempt w = (out, w1)"
    by (cases "attempt_call A m mo local global kw attempt w")
  show ?thesis
  proof (cases out)
    case (Inl exc)
    with assms ac have "on_failure self name attempt wait_time local (exn_str exc) (exn_type exc) w1
                          = (Inl e, w')"
      by (simp add: attempt_step_def)
    then show ?thesis by (rule on_failure_raises)
  next
    case (Inr r)
    with assms ac have "\<not> success r" by (auto simp: attempt_step_def)
    with assms ac Inr have "on_failure self name attempt wait_time local (adapter_failure_error r)
                              ''AdapterFailure'' w1 = (Inl e, w')"
      by (simp add: attempt_step_def)
    then show ?thesis by (rule on_failure_raises)
  qed
qed

lemma retry_loop_raises:
  "retry_loop self A name m mo global kw atts wait_time local w = (Inl e, w') \<Longrightarrow>
   e = Exn ''ValueError'' ''sleep length must be non-negative''"
proof (induction atts arbitrary: wait_time local w)
  case Nil
  then show ?case by simp
next
  case (Cons i atts)
  obtain res w1 where st: "attempt_step self A name m mo global kw i wait_time local w = (res, w1)"
    by (cases "attempt_step self A name m mo global kw i wait_time local w")
  show ?case
  proof (cases res)
    case (Inl x)
    with Cons.prems st have "x = e" by simp
    with st Inl attempt_step_raises [of self A name m mo global kw i wait_time local w e w1]
    show ?thesis by simp
  next
    case (Inr y)
    show ?thesis
    proof (cases y)
      case (Inl r)
      with Cons.prems st \<open>res = Inr y\<close> show ?thesis by simp
    next
      case (Inr nx)
      obtain wait' local' where nx: "nx = (wait', local')" by (cases nx)
      with Cons.prems st \<open>res = Inr y\<close> Inr
      have "retry_loop self A name m mo global kw atts wait' local' w1 = (Inl e, w')" by simp
      then show ?thesis by (rule Cons.IH)
    qed
  qed
qed

lemma try_provider_raises:
  assumes "try_provider self reg name m mo global kw w = (Inl e, w')"
  shows "e = Exn ''ValueError'' ''sleep length must be non-negative''"
proof -
  obtain out h1 x1 where g: "get_adapter reg name [] (heap w) (ext w) = (out, h1, x1)"
    by (cases "get_adapter reg name [] (heap w) (ext w)")
  show ?thesis
  proof (cases out)
    case (Inl exc)
    with assms g show ?thesis by (simp add: try_provider_def time_time_def)
  next
    case (Inr A)
    with assms g have "retry_loop self A name m mo global kw [0..<nat (max_retries self)]
                         (initial_wait self) [] (w\<lparr>heap := h1, ext := x1\<rparr>) = (Inl e, w')"
      by (simp add: try_provider_def)
    then show ?thesis by (rule retry_loop_raises)
  qed
qed

lemma call_loop_raises:
  "call_loop reg m mo kw st ps errs self w = (Inl e, self', w') \<Longrightarrow>
   e = Exn ''ValueError'' ''sleep length must be non-negative''"
proof (induction ps arbitrary: errs self w)
  case Nil
  then show ?case by (simp add: time_time_def)
next
  case (Cons p ps)
  show ?case
  proof (cases "p \<in> set (list_adapters reg)")
    case False
    with Cons.prems have "call_loop reg m mo kw st ps errs self w = (Inl e, self', w')" by simp
    then show ?thesis by (rule Cons.IH)
  next
    case True
    obtain res w1 where tp: "try_provider self reg p m mo errs kw w = (res, w1)"
      by (cases "try_provider self reg p m mo errs kw w")
    show ?thesis
    proof (cases res)
      case (Inl x)
      with Cons.prems True tp have "x = e" by simp
      with tp Inl try_provider_raises [of self reg p m mo errs kw w e w1] show ?thesis by simp
    next
      case (Inr r)
      show ?thesis
      proof (cases "success r")
        case True
        with Cons.prems \<open>p \<in> set (list_adapters reg)\<close> tp Inr show ?thesis
          by (simp add: time_time_def Let_def)
      next
        case False
        with Cons.prems \<open>p \<in> set (list_adapters reg)\<close> tp Inr
        have "call_loop reg m mo kw st ps
                (errs @ (case error_history r of None \<Rightarrow> [] | Some es \<Rightarrow> es))
                (update_stats self p False (times w1 0 - st))
                (w1\<lparr>times := \<lambda>n. times w1 (Suc n)\<rparr>) = (Inl e, self', w')"
          by (simp add: time_time_def Let_def)
        then show ?thesis by (rule Cons.IH)
      qed
    qed
  qed
qed

lemma call_raises:
  assumes "prompt \<noteq> None \<or> messages \<noteq> None"
    and "call self reg prompt mo messages po kw w = (Inl e, self', w')"
  shows "e = Exn ''ValueError'' ''sleep length must be non-negative''"
proof -
  from call_unfold [OF assms(1), of self reg mo po kw w] assms(2)
  obtain m st w2 where
    "call_loop reg m mo kw st (providers_to_try self po) [] self w2 = (Inl e, self', w')"
    by auto
  then show ?thesis by (rule call_loop_raises)
qed

text \<open>
  C3, as the code has it.  At least one of \<open>prompt\<close> and \<open>messages\<close> must be supplied.
  A call with neither raises the configuration error (a \<open>ValueError\<close>) at once: the
  orchestrator object, with its statistics table, and the whole world (store, backend
  state, clock, generator, sleeps) are as before, so no backend was resolved or invoked.
  A call with both is not an error: it is the call with the messages alone, the prompt
  is ignored.  No call that supplies at least one of them raises the configuration
  error: the only exception that can leave such a call is the one \<open>time.sleep\<close> raises
  on a negative duration.
\<close>

theorem C3_prompt_or_messages:
  "call self reg None mo None po kw w =
     (Inl (Exn ''ValueError'' ''Either prompt or messages must be provided''), self, w)
   \<and> call self reg (Some p) mo (Some m) po kw w = call self reg None mo (Some m) po kw w
   \<and> (prompt \<noteq> None \<or> messages \<noteq> None \<longrightarrow>
        fst (call self reg prompt mo messages po kw w)
          \<noteq> Inl (Exn ''ValueError'' ''Either prompt or messages must be provided''))"
proof -
  have a: "call self reg None mo None po kw w =
     (Inl (Exn ''ValueError'' ''Either prompt or messages must be provided''), self, w)"
    by (simp add: call_def)
  have b: "call self reg (Some p) mo (Some m) po kw w = call self reg None mo (Some m) po kw w"
    by (simp add: call_def)
  have c: "prompt \<noteq> None \<or> messages \<noteq> None \<longrightarrow>
        fst (call self reg prompt mo messages po kw w)
          \<noteq> Inl (Exn ''ValueError'' ''Either prompt or messages must be provided'')"
  proof (intro impI notI)
    assume s: "prompt \<noteq> None \<or> messages \<noteq> None"
      and f: "fst (call self reg prompt mo messages po kw w)
                = Inl (Exn ''ValueError'' ''Either prompt or messages must be provided'')"
    obtain self' w' where "call self reg prompt mo messages po kw w
        = (Inl (Exn ''ValueError'' ''Either prompt or messages must be provided''), self', w')"
      using f by (cases "call self reg prompt mo messages po kw w") auto
    from call_raises [OF s this] show False by simp
  qed
  from a b c show ?thesis by blast
qed

text \<open>
  A call that supplies both a prompt and a message list, to the always-succeeding test
  backend: it returns that backend's response and records a success in the table.
\<close>

theorem C3_prompt_or_messages_counterexample:
  "fst (call (new_provider ''_test_ok'' [] 1 1 30) test_registry (Some ''hello'') None (Some 0) None []
          test_world)
     = Inr ((LLMResponse_init ''ok'' True ''success'' ''m'')\<lparr>total_time := 1\<rparr>)
   \<and> provider_stats (fst (snd (call (new_provider ''_test_ok'' [] 1 1 30) test_registry (Some ''hello'')
          None (Some 0) None [] test_world))) ''_test_ok''
     = Some \<lparr>successes = 1, failures = 0, avg_time = 1\<rparr>"
  by (simp add: call_simps run_simps)

theorem C3_prompt_or_messages_witness:
  "fst (call (new_provider ''_test_fail'' [] 1 1 30) test_registry (Some ''hello'') None (Some 0) None []
          test_world)
     \<noteq> Inl (Exn ''ValueError'' ''Either prompt or messages must be provided'')
   \<and> fst (call (new_provider ''_test_fail'' [] 1 1 30) test_registry (Some ''hello'') None (Some 0)
          None [] test_world)
     = fst (call (new_provider ''_test_fail'' [] 1 1 30) test_registry None None (Some 0)
          None [] test_world)"
proof -
  have h: "Some ''hello'' \<noteq> None \<or> Some (0 :: addr) \<noteq> None" by simp
  note th = C3_prompt_or_messages [of "new_provider ''_test_fail'' [] 1 1 30" test_registry None None
      "[]" test_world "''hello''" 0 "Some ''hello''" "Some 0"]
  note a = th [THEN conjunct2, THEN conjunct2, rule_format, OF h]
  note b = th [THEN conjunct2, THEN conjunct1]
  from a b show ?thesis by simp
qed

end
